theory Spec2Isabelle
  imports Main
begin

section \<open>Characters and strings\<close>

text \<open>
  A JavaScript string is modelled as a \<open>string\<close>, one \<open>char\<close> per code unit (code units
  below 256 only). The character classes are the ones the regular expressions of
  \<open>server.js\<close> use: \<open>\d\<close> is \<open>[0-9]\<close>; \<open>\s\<close>, restricted to code units below 256, is
  tab, line feed, vertical tab, form feed, carriage return, space and no-break space.
\<close>

definition isDigit :: "char \<Rightarrow> bool" where
  "isDigit c = (c \<in> set ''0123456789'')"

definition isSpace :: "char \<Rightarrow> bool" where
  "isSpace c = (c \<in> set [CHR 0x09, CHR 0x0A, CHR 0x0B, CHR 0x0C, CHR 0x0D, CHR 0x20, CHR 0xA0])"

text \<open>\<open>String.prototype.startsWith\<close> for a one-character argument.\<close>

definition startsWith :: "string \<Rightarrow> char \<Rightarrow> bool" where
  "startsWith s c = (case s of [] \<Rightarrow> False | d # _ \<Rightarrow> d = c)"

text \<open>\<open>Number.prototype.toString\<close> on a non-negative integer: its decimal digits.\<close>

fun toString :: "nat \<Rightarrow> string" where
  "toString n = (if n < 10 then [''0123456789'' ! n]
                 else toString (n div 10) @ [''0123456789'' ! (n mod 10)])"

declare toString.simps [simp del]

section \<open>OTP configuration and helpers\<close>

definition OTP_EXPIRY_MINUTES :: int where "OTP_EXPIRY_MINUTES = 10"

definition MAX_OTP_ATTEMPTS :: nat where "MAX_OTP_ATTEMPTS = 5"

definition OTP_LENGTH :: nat where "OTP_LENGTH = 6"

text \<open>
  \<open>generateOTP\<close> is \<open>Math.floor(100000 + Math.random() * 900000).toString()\<close>. The random
  draw is an input of the model: \<open>k\<close> stands for \<open>Math.floor(Math.random() * 900000)\<close>,
  a number below 900000 because \<open>Math.random()\<close> is below 1.
\<close>

definition generateOTP :: "nat \<Rightarrow> string" where
  "generateOTP k = toString (100000 + k)"

text \<open>
  \<open>formatPhoneNumber\<close>: \<open>phone.replace(/[^\d+]/g, '')\<close> deletes every character that is
  neither a digit nor \<open>+\<close>; a result that does not start with \<open>+\<close> gets \<open>+1\<close> in front.
\<close>

definition formatPhoneNumber :: "string \<Rightarrow> string" where
  "formatPhoneNumber phone =
     (let cleaned = filter (\<lambda>c. isDigit c \<or> c = CHR ''+'') phone
      in if \<not> startsWith cleaned (CHR ''+'') then ''+1'' @ cleaned else cleaned)"

text \<open>
  The normalisation as the specification words it: every character is stripped except
  ASCII digits and a leading \<open>+\<close>, and a result without a leading \<open>+\<close> gets the default
  country calling code \<open>+1\<close>.
\<close>

definition normalize_spec :: "string \<Rightarrow> string" where
  "normalize_spec phone =
     (let kept = filter (\<lambda>c. isDigit c \<or> c = CHR ''+'') phone
      in if startsWith kept (CHR ''+'') then CHR ''+'' # filter isDigit kept
         else ''+1'' @ filter isDigit kept)"

text \<open>
  The email pattern \<open>/^[^\s@]+@[^\s@]+\.[^\s@]+$/\<close>. \<open>emailRegex_lang\<close> is the language of
  the expression; \<open>emailRegex_test\<close> decides it without backtracking: the first \<open>@\<close> must
  end a non-empty run of admissible characters, and the rest must consist of admissible
  characters with a dot that is neither its first nor its last character.
\<close>

definition atom :: "char \<Rightarrow> bool" where
  "atom c = (\<not> isSpace c \<and> c \<noteq> CHR ''@'')"

definition emailRegex_lang :: "string set" where
  "emailRegex_lang =
     {a @ ''@'' @ b @ ''.'' @ c | a b c.
        a \<noteq> [] \<and> b \<noteq> [] \<and> c \<noteq> [] \<and> list_all atom a \<and> list_all atom b \<and> list_all atom c}"

definition emailRegex_test :: "string \<Rightarrow> bool" where
  "emailRegex_test s =
     (takeWhile atom s \<noteq> [] \<and>
      (case dropWhile atom s of
         [] \<Rightarrow> False
       | c # d \<Rightarrow> c = CHR ''@'' \<and> list_all atom d \<and> CHR ''.'' \<in> set (butlast (tl d))))"

text \<open>The code check of the verifier: \<open>otp.length !== OTP_LENGTH || !/^\d+$/.test(otp)\<close>.\<close>

definition bad_otp_format :: "string \<Rightarrow> bool" where
  "bad_otp_format otp = (length otp \<noteq> OTP_LENGTH \<or> \<not> (otp \<noteq> [] \<and> list_all isDigit otp))"

section \<open>The \<open>otp_codes\<close> table\<close>

text \<open>
  One row of the table \<open>otp_codes\<close>, with the columns \<open>server.js\<close> reads and writes.
  \<open>row_type\<close> is the column \<open>type\<close>; \<open>row_email\<close> and \<open>row_phone\<close> are \<open>None\<close> where the
  column is null (an insert that leaves the column out); \<open>attempts\<close> is \<open>None\<close> where it is
  null. Timestamps are time values as JavaScript has them, milliseconds since the epoch
  in UTC. \<open>row_id\<close> and \<open>created_at\<close> are filled in by the store on insert.
\<close>

record otp_row =
  row_id :: nat
  row_email :: "string option"
  row_phone :: "string option"
  otp_code :: string
  row_type :: string
  expires_at :: int
  verified :: bool
  attempts :: "nat option"
  created_at :: int

type_synonym otp_table = "otp_row list"

text \<open>The store gives a new row an id that no row of the table has.\<close>

definition fresh_id :: "otp_table \<Rightarrow> nat" where
  "fresh_id t = Suc (fold max (map row_id t) 0)"

text \<open>\<open>.update(patch)\<close> with its \<open>.eq\<close> filters: every row the filter selects is patched.\<close>

definition update_where :: "(otp_row \<Rightarrow> bool) \<Rightarrow> (otp_row \<Rightarrow> otp_row) \<Rightarrow> otp_table \<Rightarrow> otp_table" where
  "update_where P f t = map (\<lambda>r. if P r then f r else r) t"

text \<open>
  \<open>.order('created_at', { ascending: false }).limit(1)\<close>: a row with the greatest
  \<open>created_at\<close>; among rows with the same \<open>created_at\<close> the first of the table is taken.
\<close>

fun newest :: "otp_row list \<Rightarrow> otp_row option" where
  "newest [] = None"
| "newest (r # rs) =
     (case newest rs of
        None \<Rightarrow> Some r
      | Some q \<Rightarrow> if created_at r < created_at q then Some q else Some r)"

section \<open>Environment, responses and effects\<close>

text \<open>
  Everything a handler reads from outside its request and the table: the process
  configuration (\<open>NODE_ENV\<close> is \<open>None\<close> when the variable is unset; \<open>sendGridApiKey\<close> says
  whether the key is set; \<open>twilio_ready\<close> is \<open>twilioClient && twilioPhoneNumber\<close>), the
  random draw of \<open>generateOTP\<close>, the clocks (\<open>clock\<close> is the time value of \<open>new Date()\<close>),
  the time zone of the process, and whether each call to the store or to a notification
  channel succeeds. A store call that fails leaves the table as it was.

  \<open>LocalTZA x t isUTC\<close> is the abstract operation \<open>LocalTZA(t, isUTC)\<close> of ECMAScript: the
  offset of the local time zone in milliseconds, at the UTC time value \<open>t\<close> when \<open>isUTC\<close>
  is true and at the local time value \<open>t\<close> otherwise.

  \<open>counter_beyond x n\<close> is the value the verifier writes back for a stored attempts
  counter \<open>n\<close> above \<open>2^53\<close>, where the counter is no longer read, increased and printed
  exactly by the double arithmetic of JavaScript; no result depends on it.
\<close>

record env =
  NODE_ENV :: "string option"
  sendGridApiKey :: bool
  twilio_ready :: bool
  random_draw :: nat
  clock :: int
  db_clock :: int
  LocalTZA :: "int \<Rightarrow> bool \<Rightarrow> int"
  counter_beyond :: "nat \<Rightarrow> nat option"
  invalidate_ok :: bool
  insert_ok :: bool
  dispatch_ok :: bool
  select_ok :: bool
  attempt_select_ok :: bool
  attempt_update_ok :: bool
  mark_ok :: bool

text \<open>
  The JSON responses of the three handlers, one constructor for each \<open>res.json\<close> of the
  source (\<open>SendCodeFailed\<close> is the one of the outer \<open>catch\<close> of both issuers); \<open>status\<close> gives the HTTP status and \<open>error_text\<close> the \<open>error\<close> field of a
  response with \<open>success: false\<close>. A code-sent response carries the \<open>otp\<close> field when the
  handler adds it; \<open>VerifiedOk\<close> is the response with \<open>verified: true\<close>.
\<close>

datatype response =
    EmailRequired | InvalidEmailFormat | StoreOtpFailed | EmailSendFailed | EmailNotConfigured
  | SendCodeFailed
  | EmailCodeSent "string option"
  | PhoneRequired | SmsNotConfigured | SmsSendFailed
  | PhoneCodeSent "string option"
  | OtpAndTypeRequired | EmailRequiredForVerification | PhoneRequiredForVerification
  | InvalidCodeFormat | VerifyFailed | InvalidOrExpiredCode | MaxAttemptsReached
  | VerifiedOk

fun status :: "response \<Rightarrow> nat" where
  "status EmailRequired = 400"
| "status InvalidEmailFormat = 400"
| "status StoreOtpFailed = 500"
| "status EmailSendFailed = 500"
| "status EmailNotConfigured = 500"
| "status SendCodeFailed = 500"
| "status (EmailCodeSent _) = 200"
| "status PhoneRequired = 400"
| "status SmsNotConfigured = 500"
| "status SmsSendFailed = 500"
| "status (PhoneCodeSent _) = 200"
| "status OtpAndTypeRequired = 400"
| "status EmailRequiredForVerification = 400"
| "status PhoneRequiredForVerification = 400"
| "status InvalidCodeFormat = 400"
| "status VerifyFailed = 500"
| "status InvalidOrExpiredCode = 400"
| "status MaxAttemptsReached = 400"
| "status VerifiedOk = 200"

fun error_text :: "response \<Rightarrow> string option" where
  "error_text EmailRequired = Some ''Email is required''"
| "error_text InvalidEmailFormat = Some ''Invalid email format''"
| "error_text StoreOtpFailed = Some ''Failed to generate verification code''"
| "error_text EmailSendFailed = Some ''Failed to send verification email. Please try again later.''"
| "error_text EmailNotConfigured = Some ''Email service not configured''"
| "error_text SendCodeFailed = Some ''Failed to send verification code''"
| "error_text (EmailCodeSent _) = None"
| "error_text PhoneRequired = Some ''Phone number is required''"
| "error_text SmsNotConfigured = Some ''SMS service not configured. Please contact support.''"
| "error_text SmsSendFailed = Some ''Failed to send SMS. Please check your phone number and try again.''"
| "error_text (PhoneCodeSent _) = None"
| "error_text OtpAndTypeRequired = Some ''OTP and type are required''"
| "error_text EmailRequiredForVerification = Some ''Email is required for email verification''"
| "error_text PhoneRequiredForVerification = Some ''Phone is required for phone verification''"
| "error_text InvalidCodeFormat = Some ''Invalid verification code format''"
| "error_text VerifyFailed = Some ''Failed to verify code''"
| "error_text InvalidOrExpiredCode = Some ''Invalid or expired verification code''"
| "error_text MaxAttemptsReached =
     Some ''Maximum verification attempts exceeded. Please request a new code.''"
| "error_text VerifiedOk = None"

text \<open>The \<open>otp\<close> field of a response, when it has one.\<close>

fun otp_field :: "response \<Rightarrow> string option" where
  "otp_field (EmailCodeSent c) = c"
| "otp_field (PhoneCodeSent c) = c"
| "otp_field _ = None"

text \<open>The error taxonomy of the specification, and the kind of each response;
  \<open>InternalError\<close> is the response of the outer \<open>catch\<close> of an issuer, which the taxonomy
  does not name.\<close>

datatype outcome =
    ValidationError | ConfigurationError | StorageError | DispatchError
  | InvalidOrExpired | MaxAttemptsExceeded | Success | InternalError

fun outcome_of :: "response \<Rightarrow> outcome" where
  "outcome_of EmailRequired = ValidationError"
| "outcome_of InvalidEmailFormat = ValidationError"
| "outcome_of StoreOtpFailed = StorageError"
| "outcome_of EmailSendFailed = DispatchError"
| "outcome_of EmailNotConfigured = ConfigurationError"
| "outcome_of SendCodeFailed = InternalError"
| "outcome_of (EmailCodeSent _) = Success"
| "outcome_of PhoneRequired = ValidationError"
| "outcome_of SmsNotConfigured = ConfigurationError"
| "outcome_of SmsSendFailed = DispatchError"
| "outcome_of (PhoneCodeSent _) = Success"
| "outcome_of OtpAndTypeRequired = ValidationError"
| "outcome_of EmailRequiredForVerification = ValidationError"
| "outcome_of PhoneRequiredForVerification = ValidationError"
| "outcome_of InvalidCodeFormat = ValidationError"
| "outcome_of VerifyFailed = StorageError"
| "outcome_of InvalidOrExpiredCode = InvalidOrExpired"
| "outcome_of MaxAttemptsReached = MaxAttemptsExceeded"
| "outcome_of VerifiedOk = Success"

text \<open>The calls a handler makes to the store and to the notification channels, in order.\<close>

datatype effect = DbUpdate | DbInsert | DbSelect | SendEmail | SendSms

section \<open>The handlers\<close>

text \<open>
  A request field that is missing, null or empty is the empty string: the handlers test
  such a field for truthiness before any other use. A handler returns its response, the
  table it leaves and the calls it made. The store client and the channels report a
  failure through their result (the \<open>error\<close> field, a rejected send), which is what the
  flags of \<open>env\<close> stand for. On string fields one exception reaches the outer \<open>catch\<close>
  of an issuer: \<open>expiresAt.toISOString()\<close> throws a RangeError when the expiry is not a
  valid time value, after the invalidating update and before the insert is sent.
\<close>

text \<open>
  The expiry. \<open>expiresAt.setMinutes(expiresAt.getMinutes() + OTP_EXPIRY_MINUTES)\<close> works on
  local time: by ECMAScript it takes \<open>LocalTime(now)\<close>, replaces the minutes, which adds
  \<open>OTP_EXPIRY_MINUTES\<close> minutes to that local time value, and stores
  \<open>TimeClip(UTC(...))\<close>, where \<open>LocalTime(t) = t + LocalTZA(t, true)\<close> and
  \<open>UTC(t) = t - LocalTZA(t, false)\<close>. \<open>TimeClip\<close> gives no time value (\<open>NaN\<close>) beyond
  8.64e15 milliseconds.
\<close>

definition LocalTime :: "env \<Rightarrow> int \<Rightarrow> int" where
  "LocalTime x t = t + LocalTZA x t True"

definition UTC :: "env \<Rightarrow> int \<Rightarrow> int" where
  "UTC x t = t - LocalTZA x t False"

definition TimeClip :: "int \<Rightarrow> int option" where
  "TimeClip t = (if 8640000000000000 < \<bar>t\<bar> then None else Some t)"

definition expiresAt :: "env \<Rightarrow> int option" where
  "expiresAt x = TimeClip (UTC x (LocalTime x (clock x) + OTP_EXPIRY_MINUTES * 60000))"

text \<open>\<open>POST /api/send-email-otp\<close>.\<close>

definition send_email_otp :: "env \<Rightarrow> string \<Rightarrow> otp_table \<Rightarrow> response \<times> otp_table \<times> effect list" where
  "send_email_otp x email t =
     (if email = [] then (EmailRequired, t, [])
      else if \<not> emailRegex_test email then (InvalidEmailFormat, t, [])
      else
        let otp = generateOTP (random_draw x);
            t1 = (if invalidate_ok x
                  then update_where
                         (\<lambda>r. row_email r = Some email \<and> row_type r = ''email'' \<and> verified r = False)
                         (\<lambda>r. r\<lparr>verified := True\<rparr>) t
                  else t);
            sent = EmailCodeSent (if NODE_ENV x = Some ''development'' then Some otp else None)
        in case expiresAt x of
             None \<Rightarrow> (SendCodeFailed, t1, [DbUpdate])
           | Some expires \<Rightarrow>
               let t2 = t1 @ [\<lparr>row_id = fresh_id t1, row_email = Some email, row_phone = None,
                               otp_code = otp, row_type = ''email'', expires_at = expires,
                               verified = False, attempts = Some 0, created_at = db_clock x\<rparr>]
               in if \<not> insert_ok x then (StoreOtpFailed, t1, [DbUpdate, DbInsert])
                  else if sendGridApiKey x then
                    (if dispatch_ok x then (sent, t2, [DbUpdate, DbInsert, SendEmail])
                     else if NODE_ENV x = Some ''production''
                          then (EmailSendFailed, t2, [DbUpdate, DbInsert, SendEmail])
                          else (sent, t2, [DbUpdate, DbInsert, SendEmail]))
                  else if NODE_ENV x = Some ''production''
                       then (EmailNotConfigured, t2, [DbUpdate, DbInsert])
                       else (sent, t2, [DbUpdate, DbInsert]))"

text \<open>\<open>POST /api/send-phone-otp\<close>.\<close>

definition send_phone_otp :: "env \<Rightarrow> string \<Rightarrow> otp_table \<Rightarrow> response \<times> otp_table \<times> effect list" where
  "send_phone_otp x phone t =
     (if phone = [] then (PhoneRequired, t, [])
      else if \<not> twilio_ready x then (SmsNotConfigured, t, [])
      else
        let formattedPhone = formatPhoneNumber phone;
            otp = generateOTP (random_draw x);
            t1 = (if invalidate_ok x
                  then update_where
                         (\<lambda>r. row_phone r = Some formattedPhone \<and> row_type r = ''phone'' \<and> verified r = False)
                         (\<lambda>r. r\<lparr>verified := True\<rparr>) t
                  else t)
        in case expiresAt x of
             None \<Rightarrow> (SendCodeFailed, t1, [DbUpdate])
           | Some expires \<Rightarrow>
               let t2 = t1 @ [\<lparr>row_id = fresh_id t1, row_email = None, row_phone = Some formattedPhone,
                               otp_code = otp, row_type = ''phone'', expires_at = expires,
                               verified = False, attempts = Some 0, created_at = db_clock x\<rparr>]
               in if \<not> insert_ok x then (StoreOtpFailed, t1, [DbUpdate, DbInsert])
                  else if \<not> dispatch_ok x then (SmsSendFailed, t2, [DbUpdate, DbInsert, SendSms])
                  else (PhoneCodeSent (if NODE_ENV x = Some ''development'' then Some otp else None),
                        t2, [DbUpdate, DbInsert, SendSms]))"

text \<open>\<open>POST /api/verify-otp\<close>. \<open>formattedPhone\<close> is null when no phone was sent, and a
  filter \<open>.eq('phone', null)\<close> selects no row.\<close>

record verify_body =
  req_email :: string
  req_phone :: string
  req_otp :: string
  req_type :: string

definition formattedPhone :: "verify_body \<Rightarrow> string option" where
  "formattedPhone b = (if req_phone b \<noteq> [] then Some (formatPhoneNumber (req_phone b)) else None)"

definition dest_eq :: "verify_body \<Rightarrow> otp_row \<Rightarrow> bool" where
  "dest_eq b r =
     (if req_type b = ''email'' then row_email r = Some (req_email b)
      else formattedPhone b \<noteq> None \<and> row_phone r = formattedPhone b)"

text \<open>The filter of the first query (a live row with the submitted code) and of the second
  (any unverified row of the destination).\<close>

definition live_match :: "env \<Rightarrow> verify_body \<Rightarrow> otp_row \<Rightarrow> bool" where
  "live_match x b r =
     (row_type r = req_type b \<and> otp_code r = req_otp b \<and> verified r = False \<and>
      clock x < expires_at r \<and> dest_eq b r)"

definition pending_match :: "verify_body \<Rightarrow> otp_row \<Rightarrow> bool" where
  "pending_match b r = (row_type r = req_type b \<and> verified r = False \<and> dest_eq b r)"

text \<open>The attempts counter of a row, a null counter counting as 0.\<close>

definition attempts_or_0 :: "otp_row \<Rightarrow> nat" where
  "attempts_or_0 r = (case attempts r of None \<Rightarrow> 0 | Some n \<Rightarrow> n)"

text \<open>
  \<open>otpRecord.attempts >= MAX_OTP_ATTEMPTS\<close>; the comparison is false on null. The number
  compared is the double nearest to the stored integer, which is at least 5 exactly when
  the integer is.
\<close>

definition attempts_exceeded :: "otp_row \<Rightarrow> bool" where
  "attempts_exceeded r = (case attempts r of None \<Rightarrow> False | Some n \<Rightarrow> MAX_OTP_ATTEMPTS \<le> n)"

text \<open>
  \<open>(recentOtp[0].attempts || 0) + 1\<close>, as the value the update writes. The counter is read
  as a double, increased in double arithmetic and printed again: up to \<open>2^53 - 1\<close> that is
  the integer plus one (null and 0 give 1); at \<open>2^53\<close> the sum rounds back to \<open>2^53\<close>;
  above, it is whatever \<open>counter_beyond\<close> says.
\<close>

definition attempts_plus_one :: "env \<Rightarrow> otp_row \<Rightarrow> nat option" where
  "attempts_plus_one x r =
     (case attempts r of
        None \<Rightarrow> Some 1
      | Some n \<Rightarrow>
          if n < 9007199254740992 then Some (n + 1)
          else if n = 9007199254740992 then Some 9007199254740992
          else counter_beyond x n)"

definition verify_otp :: "env \<Rightarrow> verify_body \<Rightarrow> otp_table \<Rightarrow> response \<times> otp_table \<times> effect list" where
  "verify_otp x b t =
     (if req_otp b = [] \<or> req_type b = [] then (OtpAndTypeRequired, t, [])
      else if req_type b = ''email'' \<and> req_email b = [] then (EmailRequiredForVerification, t, [])
      else if req_type b = ''phone'' \<and> req_phone b = [] then (PhoneRequiredForVerification, t, [])
      else if bad_otp_format (req_otp b) then (InvalidCodeFormat, t, [])
      else if \<not> select_ok x then (VerifyFailed, t, [DbSelect])
      else
        (case newest (filter (live_match x b) t) of
           None \<Rightarrow>
             (if \<not> attempt_select_ok x then (InvalidOrExpiredCode, t, [DbSelect, DbSelect])
              else
                (case newest (filter (pending_match b) t) of
                   None \<Rightarrow> (InvalidOrExpiredCode, t, [DbSelect, DbSelect])
                 | Some recent \<Rightarrow>
                     (InvalidOrExpiredCode,
                      (if attempt_update_ok x
                       then update_where (\<lambda>r. row_id r = row_id recent)
                              (\<lambda>r. r\<lparr>attempts := attempts_plus_one x recent\<rparr>) t
                       else t),
                      [DbSelect, DbSelect, DbUpdate])))
         | Some otpRecord \<Rightarrow>
             (if attempts_exceeded otpRecord then (MaxAttemptsReached, t, [DbSelect])
              else if \<not> mark_ok x then (VerifyFailed, t, [DbSelect, DbUpdate])
              else (VerifiedOk,
                    update_where (\<lambda>r. row_id r = row_id otpRecord) (\<lambda>r. r\<lparr>verified := True\<rparr>) t,
                    [DbSelect, DbUpdate]))))"

section \<open>Auxiliary definitions\<close>

text \<open>
  A verification request that passes the handler's validation for one of the two kinds:
  the destination of its kind is present and the code is six ASCII digits.
\<close>

definition valid_request :: "verify_body \<Rightarrow> bool" where
  "valid_request b =
     (((req_type b = ''email'' \<and> req_email b \<noteq> []) \<or> (req_type b = ''phone'' \<and> req_phone b \<noteq> [])) \<and>
      length (req_otp b) = 6 \<and> list_all isDigit (req_otp b))"

text \<open>The attempts counter of the row with id \<open>i\<close> set to \<open>k\<close>, every other row as it is.\<close>

definition set_attempts :: "nat \<Rightarrow> nat \<Rightarrow> otp_row \<Rightarrow> otp_row" where
  "set_attempts i k r = (if row_id r = i then r\<lparr>attempts := Some k\<rparr> else r)"

text \<open>The same verification request submitted \<open>n\<close> times in a row; the table it leaves.\<close>

fun repeat_verify :: "nat \<Rightarrow> env \<Rightarrow> verify_body \<Rightarrow> otp_table \<Rightarrow> otp_table" where
  "repeat_verify 0 x b t = t"
| "repeat_verify (Suc n) x b t = repeat_verify n x b (fst (snd (verify_otp x b t)))"

text \<open>The row carries the submitted code for the destination of the request.\<close>

definition code_match :: "verify_body \<Rightarrow> otp_row \<Rightarrow> bool" where
  "code_match b r = (row_type r = req_type b \<and> otp_code r = req_otp b \<and> dest_eq b r)"

section \<open>Concrete inputs\<close>

text \<open>A development deployment in which every collaborator answers and local time is UTC.\<close>

definition dev_env :: env where
  "dev_env = \<lparr>NODE_ENV = Some ''development'', sendGridApiKey = True, twilio_ready = True,
     random_draw = 23456, clock = 1000, db_clock = 1000, LocalTZA = (\<lambda>t isUTC. 0),
     counter_beyond = (\<lambda>n. None), invalidate_ok = True, insert_ok = True,
     dispatch_ok = True, select_ok = True, attempt_select_ok = True, attempt_update_ok = True,
     mark_ok = True\<rparr>"

text \<open>The same deployment in production mode.\<close>

definition prod_env :: env where
  "prod_env = dev_env\<lparr>NODE_ENV := Some ''production''\<rparr>"

text \<open>The row the email issuer inserts for \<open>a@b.com\<close> in \<open>dev_env\<close>, and a verification
  request for that address.\<close>

definition row_ab :: otp_row where
  "row_ab = \<lparr>row_id = 1, row_email = Some ''a@b.com'', row_phone = None, otp_code = ''123456'',
     row_type = ''email'', expires_at = 601000, verified = False, attempts = Some 0,
     created_at = 1000\<rparr>"

definition body_ab :: "string \<Rightarrow> verify_body" where
  "body_ab c = \<lparr>req_email = ''a@b.com'', req_phone = [], req_otp = c, req_type = ''email''\<rparr>"


text \<open>A later issuance in the same deployment, with another random draw.\<close>

definition later_env :: env where
  "later_env = dev_env\<lparr>random_draw := 134567, clock := 2000, db_clock := 2000\<rparr>"

text \<open>
  A development deployment in the time zone America/New_York, at 2026-11-01T06:05:00Z:
  five minutes after the end of daylight saving time (06:00:00Z, time value
  1793512800000), when local clocks went from 02:00 back to 01:00. The offset is -4 h
  before the change and -5 h after it; a local time that occurs twice is read with the
  offset before the change, as ECMAScript prescribes.
\<close>

definition ny_LocalTZA :: "int \<Rightarrow> bool \<Rightarrow> int" where
  "ny_LocalTZA t isUTC =
     (if isUTC then (if t < 1793512800000 then - 14400000 else - 18000000)
      else (if t < 1793498400000 then - 14400000 else - 18000000))"

definition ny_env :: env where
  "ny_env = dev_env\<lparr>clock := 1793513100000, db_clock := 1793513100000, LocalTZA := ny_LocalTZA\<rparr>"

text \<open>The later issuance, with the store refusing the invalidating update.\<close>

definition failing_update_env :: env where
  "failing_update_env = later_env\<lparr>invalidate_ok := False\<rparr>"

section \<open>Helper facts\<close>

lemma digit_nth: "d < 10 \<Longrightarrow> isDigit (''0123456789'' ! d)"
  unfolding isDigit_def by (rule nth_mem) simp

lemma toString_digits: "list_all isDigit (toString n)"
proof (induction n rule: toString.induct)
  case (1 n)
  show ?case
  proof (cases "n < 10")
    case True
    then show ?thesis by (subst toString.simps) (simp add: digit_nth)
  next
    case False
    then have "list_all isDigit (toString (n div 10))" using 1 by simp
    then show ?thesis using False by (subst toString.simps) (simp add: digit_nth)
  qed
qed

lemma toString_length: "0 < k \<Longrightarrow> 10 ^ (k - 1) \<le> n \<Longrightarrow> n < 10 ^ k \<Longrightarrow> length (toString n) = k"
proof (induction n arbitrary: k rule: toString.induct)
  case (1 n)
  show ?case
  proof (cases "n < 10")
    case True
    have "k = 1"
    proof (rule ccontr)
      assume "k \<noteq> 1"
      then have "2 \<le> k" using 1 by simp
      then have "(10::nat) ^ 1 \<le> 10 ^ (k - 1)" by (intro power_increasing) auto
      then show False using True 1 by simp
    qed
    then show ?thesis using True by (subst toString.simps) simp
  next
    case False
    have k2: "2 \<le> k"
    proof (rule ccontr)
      assume "\<not> 2 \<le> k"
      then have "k = 1" using 1 by simp
      then show False using False 1 by simp
    qed
    then obtain j where j: "k = Suc j" "0 < j" by (cases k) auto
    have lo: "10 ^ (j - 1) \<le> n div 10"
    proof -
      obtain i where i: "j = Suc i" using j by (cases j) auto
      have "10 * 10 ^ i \<le> n" using 1(3) j i by simp
      then have "10 ^ i \<le> n div 10" by simp
      then show ?thesis using i by simp
    qed
    have hi: "n div 10 < 10 ^ j" using 1(4) j by (simp add: less_mult_imp_div_less mult.commute)
    have "length (toString (n div 10)) = j" using 1(1) [OF False \<open>0 < j\<close> lo hi] .
    then show ?thesis using False j by (subst toString.simps) simp
  qed
qed

lemma generateOTP_format: "k < 900000 \<Longrightarrow> \<not> bad_otp_format (generateOTP k)"
proof -
  assume k: "k < 900000"
  have "length (toString (100000 + k)) = 6"
    by (rule toString_length) (use k in simp_all)
  then show ?thesis
    unfolding bad_otp_format_def generateOTP_def OTP_LENGTH_def
    using toString_digits [of "100000 + k"] by auto
qed

lemma toString_small: "n < 10 \<Longrightarrow> toString n = [''0123456789'' ! n]"
  by (subst toString.simps) simp

lemma toString_big: "10 \<le> n \<Longrightarrow> toString n = toString (n div 10) @ [''0123456789'' ! (n mod 10)]"
  by (subst toString.simps) simp

lemma plus_not_digit: "\<not> isDigit (CHR ''+'')"
  by (simp add: isDigit_def)

lemma filter_digit_no_plus:
  "\<forall>c \<in> set t. isDigit c \<or> c = CHR ''+'' \<Longrightarrow> CHR ''+'' \<notin> set t \<Longrightarrow> filter isDigit t = t"
  by (induction t) auto

lemma format_agrees:
  assumes "CHR ''+'' \<notin> set (tl (filter (\<lambda>c. isDigit c \<or> c = CHR ''+'') p))"
  shows "formatPhoneNumber p = normalize_spec p"
proof (cases "filter (\<lambda>c. isDigit c \<or> c = CHR ''+'') p")
  case Nil
  then show ?thesis by (simp add: formatPhoneNumber_def normalize_spec_def startsWith_def)
next
  case (Cons c t)
  have all: "\<forall>d \<in> set (c # t). isDigit d \<or> d = CHR ''+''"
  proof -
    have "set (c # t) = {d \<in> set p. isDigit d \<or> d = CHR ''+''}" using Cons [symmetric] by simp
    then show ?thesis by blast
  qed
  have t: "filter isDigit t = t"
    using filter_digit_no_plus [of t] all assms Cons by simp
  show ?thesis
  proof (cases "c = CHR ''+''")
    case True
    then show ?thesis using Cons t
      by (simp add: formatPhoneNumber_def normalize_spec_def startsWith_def plus_not_digit)
  next
    case False
    then have "isDigit c" using all by simp
    then show ?thesis using Cons t False
      by (simp add: formatPhoneNumber_def normalize_spec_def startsWith_def)
  qed
qed

lemma atom_dot: "atom (CHR ''.'')"
  by (simp add: atom_def isSpace_def)

lemma atom_at: "\<not> atom (CHR ''@'')"
  by (simp add: atom_def)

lemma emailRegex_test_sound:
  assumes "emailRegex_test s"
  shows "s \<in> emailRegex_lang"
proof -
  let ?a = "takeWhile atom s"
  from assms have a: "?a \<noteq> []" by (simp add: emailRegex_test_def)
  from assms obtain d where d: "dropWhile atom s = CHR ''@'' # d"
    and ad: "list_all atom d" and dot: "CHR ''.'' \<in> set (butlast (tl d))"
    by (auto simp: emailRegex_test_def split: list.splits)
  have s: "s = ?a @ CHR ''@'' # d" using d takeWhile_dropWhile_id [of atom s] by simp
  have aa: "list_all atom ?a" by (auto simp: list_all_iff dest: set_takeWhileD)
  from dot obtain x t where xt: "d = x # t" by (cases d) auto
  with dot have t: "t \<noteq> []" by auto
  from dot xt obtain u v where uv: "butlast t = u @ CHR ''.'' # v"
    by (auto dest: split_list)
  have t': "t = u @ CHR ''.'' # v @ [last t]"
    using append_butlast_last_id [OF t] uv by simp
  have d': "d = (x # u) @ ''.'' @ (v @ [last t])" using xt t' by simp
  have "list_all atom (x # u)" "list_all atom (v @ [last t])"
    using ad d' by (metis list_all_append)+
  then show ?thesis unfolding emailRegex_lang_def
    using s d' a aa by (intro CollectI exI [of _ ?a] exI [of _ "x # u"] exI [of _ "v @ [last t]"]) simp
qed

lemma emailRegex_test_complete:
  assumes "s \<in> emailRegex_lang"
  shows "emailRegex_test s"
proof -
  from assms obtain a b c where s: "s = a @ ''@'' @ b @ ''.'' @ c"
    and ne: "a \<noteq> []" "b \<noteq> []" "c \<noteq> []"
    and at: "list_all atom a" "list_all atom b" "list_all atom c"
    by (auto simp: emailRegex_lang_def)
  have s': "s = a @ CHR ''@'' # (b @ CHR ''.'' # c)" using s by simp
  have tw: "takeWhile atom s = a"
    unfolding s' using at(1) atom_at by (simp add: takeWhile_tail list_all_iff)
  have dw: "dropWhile atom s = CHR ''@'' # (b @ CHR ''.'' # c)"
    unfolding s' using at(1) atom_at by (simp add: dropWhile_append3 list_all_iff dropWhile_append2)
  obtain b0 b1 where b: "b = b0 # b1" using ne(2) by (cases b) auto
  have "butlast (tl (b @ CHR ''.'' # c)) = b1 @ CHR ''.'' # butlast c"
    using b ne(3) by (simp add: butlast_append)
  then have dot: "CHR ''.'' \<in> set (butlast (tl (b @ CHR ''.'' # c)))" by simp
  have "list_all atom (b @ CHR ''.'' # c)" using at atom_dot by simp
  then show ?thesis using tw dw ne(1) dot by (simp add: emailRegex_test_def)
qed

lemma emailRegex_test_iff: "emailRegex_test s \<longleftrightarrow> s \<in> emailRegex_lang"
  using emailRegex_test_sound emailRegex_test_complete by blast

lemma newest_None_iff: "newest rs = None \<longleftrightarrow> rs = []"
  by (induction rs) (auto split: option.splits)

lemma newest_in: "newest rs = Some r \<Longrightarrow> r \<in> set rs"
  by (induction rs arbitrary: r) (auto split: option.splits if_splits)

lemma newest_max: "newest rs = Some r \<Longrightarrow> q \<in> set rs \<Longrightarrow> created_at q \<le> created_at r"
proof (induction rs arbitrary: r)
  case Nil
  then show ?case by simp
next
  case (Cons a rs)
  show ?case
  proof (cases "newest rs")
    case None
    then have "rs = []" by (simp add: newest_None_iff)
    then show ?thesis using Cons.prems by simp
  next
    case (Some m)
    have m: "q \<in> set rs \<Longrightarrow> created_at q \<le> created_at m" using Cons.IH [OF Some] by simp
    show ?thesis
    proof (cases "created_at a < created_at m")
      case True
      then have "r = m" using Cons.prems(1) Some by simp
      then show ?thesis using Cons.prems(2) m True by auto
    next
      case False
      then have "r = a" using Cons.prems(1) Some by simp
      then show ?thesis using Cons.prems(2) m False by fastforce
    qed
  qed
qed

lemma newest_filter: "newest (filter P t) = Some r \<Longrightarrow> r \<in> set t \<and> P r"
  using newest_in [of "filter P t" r] by simp

lemma newest_filter_None: "newest (filter P t) = None \<longleftrightarrow> (\<forall>r \<in> set t. \<not> P r)"
  by (simp add: newest_None_iff filter_empty_conv)

lemma valid_request_checks:
  "valid_request b \<Longrightarrow>
     req_otp b \<noteq> [] \<and> req_type b \<noteq> [] \<and> \<not> (req_type b = ''email'' \<and> req_email b = []) \<and>
     \<not> (req_type b = ''phone'' \<and> req_phone b = []) \<and> \<not> bad_otp_format (req_otp b)"
  by (auto simp: valid_request_def bad_otp_format_def OTP_LENGTH_def)

lemma verify_otp_valid:
  assumes "valid_request b" "select_ok x"
  shows "verify_otp x b t =
        (case newest (filter (live_match x b) t) of
           None \<Rightarrow>
             (if \<not> attempt_select_ok x then (InvalidOrExpiredCode, t, [DbSelect, DbSelect])
              else
                (case newest (filter (pending_match b) t) of
                   None \<Rightarrow> (InvalidOrExpiredCode, t, [DbSelect, DbSelect])
                 | Some recent \<Rightarrow>
                     (InvalidOrExpiredCode,
                      (if attempt_update_ok x
                       then update_where (\<lambda>r. row_id r = row_id recent)
                              (\<lambda>r. r\<lparr>attempts := attempts_plus_one x recent\<rparr>) t
                       else t),
                      [DbSelect, DbSelect, DbUpdate])))
         | Some otpRecord \<Rightarrow>
             (if attempts_exceeded otpRecord then (MaxAttemptsReached, t, [DbSelect])
              else if \<not> mark_ok x then (VerifyFailed, t, [DbSelect, DbUpdate])
              else (VerifiedOk,
                    update_where (\<lambda>r. row_id r = row_id otpRecord) (\<lambda>r. r\<lparr>verified := True\<rparr>) t,
                    [DbSelect, DbUpdate])))"
proof -
  have c: "req_otp b \<noteq> []" "req_type b \<noteq> []" "\<not> bad_otp_format (req_otp b)"
    using valid_request_checks [OF assms(1)] by simp_all
  have e: "\<not> (req_type b = ''email'' \<and> req_email b = [])"
    and p: "\<not> (req_type b = ''phone'' \<and> req_phone b = [])"
    using valid_request_checks [OF assms(1)] by blast+
  show ?thesis
    unfolding verify_otp_def if_not_P [OF e] if_not_P [OF p] using c assms(2) by simp
qed

lemma expiresAt_dev: "expiresAt dev_env = Some 601000"
  by (simp add: expiresAt_def TimeClip_def UTC_def LocalTime_def dev_env_def OTP_EXPIRY_MINUTES_def)

lemma expiresAt_ny: "expiresAt ny_env = Some 1793510100000"
  by (simp add: expiresAt_def TimeClip_def UTC_def LocalTime_def ny_env_def ny_LocalTZA_def
      dev_env_def OTP_EXPIRY_MINUTES_def)

lemma expiresAt_fixed_offset:
  assumes "expiresAt x = Some ex"
    and "LocalTZA x (LocalTime x (clock x) + 600000) False = LocalTZA x (clock x) True"
  shows "ex = clock x + 600000"
  using assms
  by (simp add: expiresAt_def TimeClip_def UTC_def LocalTime_def OTP_EXPIRY_MINUTES_def
      split: if_splits)

lemma otp_123456: "generateOTP 23456 = ''123456''"
  by (simp add: generateOTP_def toString_small toString_big)

lemma otp_234567: "generateOTP 134567 = ''234567''"
  by (simp add: generateOTP_def toString_small toString_big)

lemma email_ab: "emailRegex_test ''a@b.com''"
  by code_simp

lemma email_ab_lang: "''a@b.com'' \<in> emailRegex_lang"
  using email_ab by (simp add: emailRegex_test_iff)

lemma email_nonempty: "emailRegex_test e \<Longrightarrow> e \<noteq> []"
  by (auto simp: emailRegex_test_def)

lemma format_555: "formatPhoneNumber ''(555) 123-4567'' = ''+15551234567''"
  by (simp add: formatPhoneNumber_def startsWith_def isDigit_def)

lemma issue_dev_ab:
  "send_email_otp dev_env ''a@b.com'' [] =
     (EmailCodeSent (Some ''123456''), [row_ab], [DbUpdate, DbInsert, SendEmail])"
  unfolding send_email_otp_def expiresAt_dev
  by (simp add: email_ab dev_env_def otp_123456 update_where_def fresh_id_def Let_def row_ab_def)

lemma issue_dev_phone:
  "send_phone_otp dev_env ''(555) 123-4567'' [] =
     (PhoneCodeSent (Some ''123456''),
      [\<lparr>row_id = 1, row_email = None, row_phone = Some ''+15551234567'', otp_code = ''123456'',
        row_type = ''phone'', expires_at = 601000, verified = False, attempts = Some 0,
        created_at = 1000\<rparr>],
      [DbUpdate, DbInsert, SendSms])"
  unfolding send_phone_otp_def expiresAt_dev
  by (simp add: format_555 dev_env_def otp_123456 update_where_def fresh_id_def Let_def)

lemma issue_ny_ab:
  "send_email_otp ny_env ''a@b.com'' [] =
     (EmailCodeSent (Some ''123456''),
      [row_ab\<lparr>expires_at := 1793510100000, created_at := 1793513100000\<rparr>],
      [DbUpdate, DbInsert, SendEmail])"
  unfolding send_email_otp_def expiresAt_ny
  by (simp add: email_ab ny_env_def dev_env_def otp_123456 update_where_def fresh_id_def Let_def
      row_ab_def)

lemma issue_failing_update:
  "send_email_otp failing_update_env ''a@b.com'' [row_ab] =
     (EmailCodeSent (Some ''234567''),
      [row_ab, row_ab\<lparr>row_id := 2, otp_code := ''234567'', expires_at := 602000, created_at := 2000\<rparr>],
      [DbUpdate, DbInsert, SendEmail])"
proof -
  have e: "expiresAt failing_update_env = Some 602000"
    by (simp add: expiresAt_def TimeClip_def UTC_def LocalTime_def failing_update_env_def
        later_env_def dev_env_def OTP_EXPIRY_MINUTES_def)
  show ?thesis
    unfolding send_email_otp_def e
    by (simp add: email_ab failing_update_env_def later_env_def dev_env_def otp_234567 fresh_id_def
        Let_def row_ab_def)
qed

lemma attempts_exceeded_iff: "attempts_exceeded r \<longleftrightarrow> MAX_OTP_ATTEMPTS \<le> attempts_or_0 r"
  by (simp add: attempts_exceeded_def attempts_or_0_def MAX_OTP_ATTEMPTS_def split: option.splits)

lemma attempts_plus_one_safe:
  "attempts r = Some n \<Longrightarrow> n < 9007199254740992 \<Longrightarrow> attempts_plus_one x r = Some (n + 1)"
  by (simp add: attempts_plus_one_def)

lemma attempts_plus_one_null: "attempts r = None \<Longrightarrow> attempts_plus_one x r = Some 1"
  by (simp add: attempts_plus_one_def)

lemma attempts_plus_one_limit:
  "attempts r = Some 9007199254740992 \<Longrightarrow> attempts_plus_one x r = Some 9007199254740992"
  by (simp add: attempts_plus_one_def)

lemma valid_body_ab: "length c = 6 \<Longrightarrow> list_all isDigit c \<Longrightarrow> valid_request (body_ab c)"
  by (simp add: valid_request_def body_ab_def)

lemma d123456: "length ''123456'' = 6 \<and> list_all isDigit ''123456''"
  by (simp add: isDigit_def)

lemma d000000: "length ''000000'' = 6 \<and> list_all isDigit ''000000''"
  by (simp add: isDigit_def)

lemma v000000: "valid_request (body_ab ''000000'')"
  using d000000 by (simp add: valid_body_ab)

lemma v123456: "valid_request (body_ab ''123456'')"
  using d123456 by (simp add: valid_body_ab)

lemma ab_pending:
  "pending_match (body_ab c) (row_ab\<lparr>attempts := a\<rparr>)"
  by (simp add: pending_match_def dest_eq_def body_ab_def row_ab_def)

lemma ab_live: "live_match dev_env (body_ab c) (row_ab\<lparr>attempts := a\<rparr>) \<longleftrightarrow> c = ''123456''"
  by (auto simp: live_match_def dest_eq_def body_ab_def row_ab_def dev_env_def)

lemma wrong_code_ab:
  "verify_otp dev_env (body_ab ''000000'') [row_ab\<lparr>attempts := Some n\<rparr>] =
     (InvalidOrExpiredCode,
      [row_ab\<lparr>attempts := attempts_plus_one dev_env (row_ab\<lparr>attempts := Some n\<rparr>)\<rparr>],
      [DbSelect, DbSelect, DbUpdate])"
proof -
  have s: "select_ok dev_env" "attempt_select_ok dev_env" "attempt_update_ok dev_env"
    by (simp_all add: dev_env_def)
  show ?thesis
    unfolding verify_otp_valid [OF v000000 s(1)]
    using s by (simp add: ab_live ab_pending update_where_def)
qed

lemma wrong_codes_ab:
  "k + n \<le> 9007199254740992 \<Longrightarrow>
   repeat_verify n dev_env (body_ab ''000000'') [row_ab\<lparr>attempts := Some k\<rparr>] =
     [row_ab\<lparr>attempts := Some (k + n)\<rparr>]"
proof (induction n arbitrary: k)
  case 0
  then show ?case by simp
next
  case (Suc n)
  have k: "k < 9007199254740992" using Suc.prems by simp
  have "attempts_plus_one dev_env (row_ab\<lparr>attempts := Some k\<rparr>) = Some (k + 1)"
    by (rule attempts_plus_one_safe [OF _ k]) simp
  then show ?case using Suc.IH [of "k + 1"] Suc.prems by (simp add: wrong_code_ab)
qed

lemma five_wrong_codes_ab:
  "repeat_verify 5 dev_env (body_ab ''000000'') [row_ab] = [row_ab\<lparr>attempts := Some 5\<rparr>]"
proof -
  have "row_ab = row_ab\<lparr>attempts := Some 0\<rparr>" by (simp add: row_ab_def)
  then have "repeat_verify 5 dev_env (body_ab ''000000'') [row_ab] =
             repeat_verify 5 dev_env (body_ab ''000000'') [row_ab\<lparr>attempts := Some 0\<rparr>]" by simp
  also have "\<dots> = [row_ab\<lparr>attempts := Some (0 + 5)\<rparr>]" by (rule wrong_codes_ab) simp
  finally show ?thesis by simp
qed

lemma max_attempts_ab:
  "verify_otp dev_env (body_ab ''123456'') [row_ab\<lparr>attempts := Some 5\<rparr>] =
     (MaxAttemptsReached, [row_ab\<lparr>attempts := Some 5\<rparr>], [DbSelect])"
proof -
  have s: "select_ok dev_env" by (simp add: dev_env_def)
  show ?thesis
    unfolding verify_otp_valid [OF v123456 s]
    by (simp add: ab_live attempts_exceeded_iff MAX_OTP_ATTEMPTS_def attempts_or_0_def)
qed

lemma update_by_id:
  assumes "distinct (map row_id t)" and "r0 \<in> set t"
  shows "update_where (\<lambda>r. row_id r = row_id r0) f t = map (\<lambda>r. if r = r0 then f r else r) t"
proof -
  have "inj_on row_id (set t)" using assms(1) by (simp add: distinct_map)
  then have "\<forall>r \<in> set t. (row_id r = row_id r0) = (r = r0)"
    using assms(2) by (auto dest: inj_onD)
  then show ?thesis by (simp add: update_where_def)
qed

lemma newest_strict:
  assumes "r0 \<in> set rs" and "\<forall>q \<in> set rs. q \<noteq> r0 \<longrightarrow> created_at q < created_at r0"
  shows "newest rs = Some r0"
proof -
  from assms(1) have "rs \<noteq> []" by auto
  then obtain m where m: "newest rs = Some m"
    using newest_None_iff [of rs] by (cases "newest rs") auto
  have "m \<in> set rs" using newest_in [OF m] .
  moreover have "created_at r0 \<le> created_at m" using newest_max [OF m assms(1)] .
  ultimately have "m = r0" using assms(2) by force
  then show ?thesis using m by simp
qed

lemma set_attempts_fields:
  "created_at (set_attempts i k r) = created_at r" "row_id (set_attempts i k r) = row_id r"
  "pending_match b (set_attempts i k r) = pending_match b r"
  "live_match x b (set_attempts i k r) = live_match x b r"
  by (simp_all add: set_attempts_def pending_match_def live_match_def dest_eq_def)

lemma set_attempts_twice: "set_attempts i k (set_attempts i j r) = set_attempts i k r"
  by (simp add: set_attempts_def)

lemma set_attempts_same:
  assumes "distinct (map row_id t)" and "r0 \<in> set t" and "attempts r0 = Some a"
  shows "map (set_attempts (row_id r0) a) t = t"
proof -
  have "inj_on row_id (set t)" using assms(1) by (simp add: distinct_map)
  then have "\<forall>r \<in> set t. row_id r = row_id r0 \<longrightarrow> r = r0"
    using assms(2) by (auto dest: inj_onD)
  then have "\<forall>r \<in> set t. set_attempts (row_id r0) a r = r"
    using assms(3) by (auto simp: set_attempts_def)
  then show ?thesis by (simp add: map_idI)
qed

lemma failed_verify_table:
  assumes "valid_request b" and "select_ok x" and "\<forall>r \<in> set t. \<not> live_match x b r"
    and "attempt_select_ok x" and "attempt_update_ok x"
    and "newest (filter (pending_match b) t) = Some r0"
  shows "verify_otp x b t =
     (InvalidOrExpiredCode,
      update_where (\<lambda>r. row_id r = row_id r0) (\<lambda>r. r\<lparr>attempts := attempts_plus_one x r0\<rparr>) t,
      [DbSelect, DbSelect, DbUpdate])"
proof -
  have n: "newest (filter (live_match x b) t) = None" using assms(3) by (simp add: newest_filter_None)
  show ?thesis using n assms(4,5,6) by (simp add: verify_otp_valid [OF assms(1,2)])
qed

lemma failed_verify_step:
  assumes "valid_request b" and "select_ok x" and "attempt_select_ok x" and "attempt_update_ok x"
    and "\<forall>r \<in> set t. \<not> live_match x b r"
    and "r0 \<in> set t" and "pending_match b r0"
    and "\<forall>q \<in> set t. pending_match b q \<and> q \<noteq> r0 \<longrightarrow> created_at q < created_at r0"
    and "k < 9007199254740992"
  shows "verify_otp x b (map (set_attempts (row_id r0) k) t) =
     (InvalidOrExpiredCode, map (set_attempts (row_id r0) (k + 1)) t, [DbSelect, DbSelect, DbUpdate])"
proof -
  let ?f = "set_attempts (row_id r0) k"
  let ?t = "map ?f t"
  have nl: "\<forall>r \<in> set ?t. \<not> live_match x b r" using assms(5) by (simp add: set_attempts_fields)
  have mem: "?f r0 \<in> set (filter (pending_match b) ?t)"
    using assms(6,7) by (simp add: set_attempts_fields)
  have newer: "\<forall>q \<in> set (filter (pending_match b) ?t). q \<noteq> ?f r0 \<longrightarrow> created_at q < created_at (?f r0)"
  proof
    fix q assume "q \<in> set (filter (pending_match b) ?t)"
    then obtain q0 where q0: "q0 \<in> set t" "q = ?f q0" "pending_match b q0"
      by (auto simp: set_attempts_fields)
    show "q \<noteq> ?f r0 \<longrightarrow> created_at q < created_at (?f r0)"
    proof
      assume "q \<noteq> ?f r0"
      then have "q0 \<noteq> r0" using q0(2) by auto
      then have "created_at q0 < created_at r0" using assms(8) q0(1,3) by blast
      then show "created_at q < created_at (?f r0)" using q0(2) by (simp add: set_attempts_fields)
    qed
  qed
  have nw: "newest (filter (pending_match b) ?t) = Some (?f r0)"
    by (rule newest_strict [OF mem newer])
  have a: "attempts (?f r0) = Some k" by (simp add: set_attempts_def)
  have p: "attempts_plus_one x (?f r0) = Some (k + 1)"
    by (rule attempts_plus_one_safe [OF a assms(9)])
  have "update_where (\<lambda>r. row_id r = row_id (?f r0)) (\<lambda>r. r\<lparr>attempts := Some (k + 1)\<rparr>) ?t =
        map (set_attempts (row_id r0) (k + 1)) t"
    by (simp add: update_where_def set_attempts_def)
  then show ?thesis
    using failed_verify_table [OF assms(1,2) nl assms(3,4) nw] p by simp
qed

lemma repeat_failed_verify:
  assumes "valid_request b" and "select_ok x" and "attempt_select_ok x" and "attempt_update_ok x"
    and "\<forall>r \<in> set t. \<not> live_match x b r"
    and "r0 \<in> set t" and "pending_match b r0"
    and "\<forall>q \<in> set t. pending_match b q \<and> q \<noteq> r0 \<longrightarrow> created_at q < created_at r0"
  shows "k + n \<le> 9007199254740992 \<Longrightarrow>
         repeat_verify n x b (map (set_attempts (row_id r0) k) t) =
           map (set_attempts (row_id r0) (k + n)) t"
proof (induction n arbitrary: k)
  case 0
  then show ?case by simp
next
  case (Suc n)
  have k: "k < 9007199254740992" using Suc.prems by simp
  have "fst (snd (verify_otp x b (map (set_attempts (row_id r0) k) t))) =
        map (set_attempts (row_id r0) (k + 1)) t"
    using failed_verify_step [OF assms k] by simp
  then show ?case using Suc.IH [of "k + 1"] Suc.prems by simp
qed

lemma live_match_code: "live_match x b r \<longleftrightarrow> code_match b r \<and> \<not> verified r \<and> clock x < expires_at r"
  by (auto simp: live_match_def code_match_def)

lemma live_pending: "live_match x b r \<Longrightarrow> pending_match b r"
  by (simp add: live_match_def pending_match_def)

lemma no_live_invalid:
  assumes "valid_request b" and "select_ok x" and "\<forall>r \<in> set t. \<not> live_match x b r"
  shows "fst (verify_otp x b t) = InvalidOrExpiredCode"
proof -
  have "newest (filter (live_match x b) t) = None" using assms(3) by (simp add: newest_filter_None)
  then show ?thesis by (simp add: verify_otp_valid [OF assms(1,2)] split: option.splits)
qed

lemma verified_ok_found:
  assumes "fst (verify_otp x b t) = VerifiedOk"
  shows "\<exists>q. newest (filter (live_match x b) t) = Some q \<and> \<not> attempts_exceeded q \<and>
             fst (snd (verify_otp x b t)) =
               update_where (\<lambda>r. row_id r = row_id q) (\<lambda>r. r\<lparr>verified := True\<rparr>) t"
  using assms by (auto simp: verify_otp_def split: if_splits option.splits)

lemma verify_after_issue_ok:
  assumes "valid_request b" and "select_ok y" and "mark_ok y"
    and "\<forall>r \<in> set t1. \<not> pending_match b r" and "live_match y b new" and "attempts new = Some 0"
  shows "verify_otp y b (t1 @ [new]) =
     (VerifiedOk, update_where (\<lambda>r. row_id r = row_id new) (\<lambda>r. r\<lparr>verified := True\<rparr>) (t1 @ [new]),
      [DbSelect, DbUpdate])"
proof -
  have "\<forall>r \<in> set t1. \<not> live_match y b r" using assms(4) live_pending by blast
  then have "filter (live_match y b) t1 = []" by (simp add: filter_empty_conv)
  then have n: "newest (filter (live_match y b) (t1 @ [new])) = Some new" using assms(5) by simp
  have "\<not> attempts_exceeded new" using assms(6) by (simp add: attempts_exceeded_def MAX_OTP_ATTEMPTS_def)
  then show ?thesis using n assms(3) by (simp add: verify_otp_valid [OF assms(1,2)])
qed

lemma verify_after_issue_wrong:
  assumes "valid_request b" and "select_ok y"
    and "\<forall>r \<in> set t1. \<not> pending_match b r" and "otp_code new \<noteq> req_otp b"
  shows "fst (verify_otp y b (t1 @ [new])) = InvalidOrExpiredCode"
proof -
  have "\<forall>r \<in> set t1. \<not> live_match y b r" using assms(3) live_pending by blast
  moreover have "\<not> live_match y b new" using assms(4) by (simp add: live_match_def)
  ultimately have "\<forall>r \<in> set (t1 @ [new]). \<not> live_match y b r" by simp
  then show ?thesis by (rule no_live_invalid [OF assms(1,2)])
qed

lemma invalidate_email_no_pending:
  assumes "req_type b = ''email''"
  shows "\<forall>r \<in> set (update_where
            (\<lambda>r. row_email r = Some (req_email b) \<and> row_type r = ''email'' \<and> verified r = False)
            (\<lambda>r. r\<lparr>verified := True\<rparr>) t). \<not> pending_match b r"
  using assms by (auto simp: update_where_def pending_match_def dest_eq_def)

lemma invalidate_phone_no_pending:
  assumes "req_type b = ''phone''"
  shows "\<forall>r \<in> set (update_where
            (\<lambda>r. row_phone r = Some (formatPhoneNumber (req_phone b)) \<and> row_type r = ''phone'' \<and>
                 verified r = False)
            (\<lambda>r. r\<lparr>verified := True\<rparr>) t). \<not> pending_match b r"
  using assms by (auto simp: update_where_def pending_match_def dest_eq_def formattedPhone_def)

lemma send_email_otp_table:
  assumes "emailRegex_test e" and "expiresAt x = Some ex" and "insert_ok x" and "invalidate_ok x"
  shows "fst (snd (send_email_otp x e t)) =
     update_where (\<lambda>r. row_email r = Some e \<and> row_type r = ''email'' \<and> verified r = False)
       (\<lambda>r. r\<lparr>verified := True\<rparr>) t @
     [\<lparr>row_id = fresh_id (update_where
          (\<lambda>r. row_email r = Some e \<and> row_type r = ''email'' \<and> verified r = False)
          (\<lambda>r. r\<lparr>verified := True\<rparr>) t),
       row_email = Some e, row_phone = None, otp_code = generateOTP (random_draw x),
       row_type = ''email'', expires_at = ex, verified = False, attempts = Some 0,
       created_at = db_clock x\<rparr>]"
  using assms email_nonempty [OF assms(1)]
  by (simp add: send_email_otp_def Let_def)

lemma send_phone_otp_table:
  assumes "p \<noteq> []" and "twilio_ready x" and "expiresAt x = Some ex" and "insert_ok x" and "invalidate_ok x"
  shows "fst (snd (send_phone_otp x p t)) =
     update_where (\<lambda>r. row_phone r = Some (formatPhoneNumber p) \<and> row_type r = ''phone'' \<and> verified r = False)
       (\<lambda>r. r\<lparr>verified := True\<rparr>) t @
     [\<lparr>row_id = fresh_id (update_where
          (\<lambda>r. row_phone r = Some (formatPhoneNumber p) \<and> row_type r = ''phone'' \<and> verified r = False)
          (\<lambda>r. r\<lparr>verified := True\<rparr>) t),
       row_email = None, row_phone = Some (formatPhoneNumber p), otp_code = generateOTP (random_draw x),
       row_type = ''phone'', expires_at = ex, verified = False, attempts = Some 0,
       created_at = db_clock x\<rparr>]"
  using assms by (simp add: send_phone_otp_def Let_def)

lemma send_email_otp_response:
  assumes "emailRegex_test e" and "expiresAt x = Some ex" and "insert_ok x"
    and "NODE_ENV x \<noteq> Some ''production''"
  shows "fst (send_email_otp x e t) =
     EmailCodeSent (if NODE_ENV x = Some ''development'' then Some (generateOTP (random_draw x)) else None)"
  using assms email_nonempty [OF assms(1)] by (simp add: send_email_otp_def Let_def)

lemma send_email_otp_sent:
  assumes "fst (send_email_otp x e t) = EmailCodeSent c"
  shows "emailRegex_test e \<and> insert_ok x \<and> (\<exists>ex. expiresAt x = Some ex) \<and>
         c = (if NODE_ENV x = Some ''development'' then Some (generateOTP (random_draw x)) else None)"
  using assms by (auto simp: send_email_otp_def Let_def split: if_splits option.splits)

lemma send_phone_otp_sms_failed:
  assumes "fst (send_phone_otp x p t) = SmsSendFailed"
  shows "p \<noteq> [] \<and> twilio_ready x \<and> insert_ok x \<and> \<not> dispatch_ok x \<and> (\<exists>ex. expiresAt x = Some ex)"
  using assms by (auto simp: send_phone_otp_def Let_def split: if_splits option.splits)

lemma valid_request_email:
  "req_type b = ''email'' \<Longrightarrow> req_email b \<noteq> [] \<Longrightarrow> \<not> bad_otp_format (req_otp b) \<Longrightarrow> valid_request b"
  by (auto simp: valid_request_def bad_otp_format_def OTP_LENGTH_def)

lemma valid_request_phone:
  "req_type b = ''phone'' \<Longrightarrow> req_phone b \<noteq> [] \<Longrightarrow> \<not> bad_otp_format (req_otp b) \<Longrightarrow> valid_request b"
  by (auto simp: valid_request_def bad_otp_format_def OTP_LENGTH_def)

lemma verify_ab_ok:
  "clock y < 601000 \<Longrightarrow> select_ok y \<Longrightarrow> mark_ok y \<Longrightarrow>
   verify_otp y (body_ab ''123456'') [row_ab] = (VerifiedOk, [row_ab\<lparr>verified := True\<rparr>], [DbSelect, DbUpdate])"
proof -
  assume a: "clock y < 601000" "select_ok y" "mark_ok y"
  have l: "live_match y (body_ab ''123456'') row_ab"
    using a(1) by (simp add: live_match_def dest_eq_def body_ab_def row_ab_def)
  have "verify_otp y (body_ab ''123456'') ([] @ [row_ab]) =
     (VerifiedOk, update_where (\<lambda>r. row_id r = row_id row_ab) (\<lambda>r. r\<lparr>verified := True\<rparr>) ([] @ [row_ab]),
      [DbSelect, DbUpdate])"
    by (rule verify_after_issue_ok [OF v123456 a(2,3) _ l]) (simp_all add: row_ab_def)
  then show ?thesis by (simp add: update_where_def)
qed

lemma set_attempts_by_row:
  assumes "distinct (map row_id t)" and "r0 \<in> set t"
  shows "map (set_attempts (row_id r0) k) t =
         map (\<lambda>r. if r = r0 then r\<lparr>attempts := Some k\<rparr> else r) t"
proof -
  have "inj_on row_id (set t)" using assms(1) by (simp add: distinct_map)
  then have "\<forall>r \<in> set t. (row_id r = row_id r0) = (r = r0)"
    using assms(2) by (auto dest: inj_onD)
  then show ?thesis by (simp add: set_attempts_def)
qed

lemma wrong_code_at_limit_ab:
  "verify_otp dev_env (body_ab ''000000'') [row_ab\<lparr>attempts := Some 9007199254740992\<rparr>] =
     (InvalidOrExpiredCode, [row_ab\<lparr>attempts := Some 9007199254740992\<rparr>],
      [DbSelect, DbSelect, DbUpdate])"
  by (simp add: wrong_code_ab attempts_plus_one_def)

lemma expiresAt_random_draw: "expiresAt (x\<lparr>random_draw := k\<rparr>) = expiresAt x"
  by (simp add: expiresAt_def UTC_def LocalTime_def)

section \<open>Issuing, then verifying\<close>

text \<open>
  C1: a code issued for a valid email address outside production mode verifies when it is
  submitted at once, within its validity window. The issuer computes the expiry on local
  time, so the stored expiry is not always ten minutes after the issuance: in
  America/New_York at 2026-11-01T06:05:00Z, five minutes after the end of daylight saving
  time, the development-mode issuer returns the code \<open>123456\<close> and stores an expiry 50
  minutes before the issuance, and the verification of that code at the same instant is
  answered with the invalid-or-expired error.
\<close>

theorem issue_then_verify_fails_after_dst_change:
  "fst (send_email_otp ny_env ''a@b.com'' []) = EmailCodeSent (Some ''123456'') \<and>
   expires_at (last (fst (snd (send_email_otp ny_env ''a@b.com'' [])))) = clock ny_env - 3000000 \<and>
   fst (verify_otp ny_env (body_ab ''123456'') (fst (snd (send_email_otp ny_env ''a@b.com'' [])))) =
     InvalidOrExpiredCode"
proof -
  have v: "verify_otp ny_env (body_ab ''123456'')
             [row_ab\<lparr>expires_at := 1793510100000, created_at := 1793513100000\<rparr>] =
           (InvalidOrExpiredCode,
            [row_ab\<lparr>expires_at := 1793510100000, created_at := 1793513100000, attempts := Some 1\<rparr>],
            [DbSelect, DbSelect, DbUpdate])"
  proof -
    have s: "select_ok ny_env" "attempt_select_ok ny_env" "attempt_update_ok ny_env"
      by (simp_all add: ny_env_def dev_env_def)
    have l: "\<not> live_match ny_env (body_ab ''123456'')
               (row_ab\<lparr>expires_at := 1793510100000, created_at := 1793513100000\<rparr>)"
      by (simp add: live_match_def ny_env_def)
    have p: "pending_match (body_ab ''123456'')
               (row_ab\<lparr>expires_at := 1793510100000, created_at := 1793513100000\<rparr>)"
      by (simp add: pending_match_def dest_eq_def body_ab_def row_ab_def)
    show ?thesis
      unfolding verify_otp_valid [OF v123456 s(1)]
      using s l p by (simp add: update_where_def attempts_plus_one_def row_ab_def)
  qed
  show ?thesis
    by (simp add: issue_ny_ab v) (simp add: ny_env_def)
qed

text \<open>
  What holds of the code: when the issuer's response carries the code, a verification of
  that address with that code made before the stored expiry succeeds (the invalidating
  update and the verifier's store calls succeeding); and where the time zone offset does
  not change, the stored expiry is ten minutes after the issuance.
\<close>

lemma issue_then_verify_before_expiry:
  assumes "fst (send_email_otp x e t) = EmailCodeSent (Some c)"
    and "random_draw x < 900000" and "invalidate_ok x"
    and "expiresAt x = Some ex" and "clock y < ex" and "select_ok y" and "mark_ok y"
    and "req_type b = ''email''" and "req_email b = e" and "req_otp b = c"
  shows "fst (verify_otp y b (fst (snd (send_email_otp x e t)))) = VerifiedOk"
proof -
  let ?otp = "generateOTP (random_draw x)"
  let ?t1 = "update_where (\<lambda>r. row_email r = Some e \<and> row_type r = ''email'' \<and> verified r = False)
       (\<lambda>r. r\<lparr>verified := True\<rparr>) t"
  let ?new = "\<lparr>row_id = fresh_id ?t1, row_email = Some e, row_phone = None, otp_code = ?otp,
       row_type = ''email'', expires_at = ex, verified = False, attempts = Some 0,
       created_at = db_clock x\<rparr>"
  have s: "emailRegex_test e" "insert_ok x" "Some c = (if NODE_ENV x = Some ''development'' then Some ?otp else None)"
    using send_email_otp_sent [OF assms(1)] by simp_all
  have code: "c = ?otp" using s(3) by (simp split: if_splits)
  have tab: "fst (snd (send_email_otp x e t)) = ?t1 @ [?new]"
    by (rule send_email_otp_table [OF s(1) assms(4) s(2) assms(3)])
  have v: "valid_request b"
    using assms(8,9,10) email_nonempty [OF s(1)] generateOTP_format [OF assms(2)] code
    by (simp add: valid_request_email)
  have np: "\<forall>r \<in> set ?t1. \<not> pending_match b r"
    using invalidate_email_no_pending [OF assms(8), of t] assms(9) by simp
  have lv: "live_match y b ?new"
    using assms(5,8,9,10) code by (simp add: live_match_def dest_eq_def)
  show ?thesis unfolding tab using verify_after_issue_ok [OF v assms(6,7) np lv] by simp
qed

section \<open>Issuing again\<close>

text \<open>
  C2: issuing a new code marks every earlier unverified row of the destination verified,
  so that afterwards the first code is refused and the newest one verifies. The issuer
  does not look at the result of the invalidating update, as it does for the insert that
  follows: when the store refuses that update, the second issuance for \<open>a@b.com\<close> still
  answers with success (code \<open>234567\<close>), the first row stays unverified, and a
  verification with the first code \<open>123456\<close> succeeds.
\<close>

theorem reissue_with_failed_invalidation:
  "fst (send_email_otp dev_env ''a@b.com'' []) = EmailCodeSent (Some ''123456'') \<and>
   fst (send_email_otp failing_update_env ''a@b.com''
          (fst (snd (send_email_otp dev_env ''a@b.com'' [])))) = EmailCodeSent (Some ''234567'') \<and>
   fst (snd (send_email_otp failing_update_env ''a@b.com''
          (fst (snd (send_email_otp dev_env ''a@b.com'' []))))) ! 0 = row_ab \<and>
   verified row_ab = False \<and>
   fst (verify_otp (later_env\<lparr>clock := 3000\<rparr>) (body_ab ''123456'')
          (fst (snd (send_email_otp failing_update_env ''a@b.com''
             (fst (snd (send_email_otp dev_env ''a@b.com'' []))))))) = VerifiedOk"
proof -
  let ?y = "later_env\<lparr>clock := 3000\<rparr>"
  let ?new = "row_ab\<lparr>row_id := 2, otp_code := ''234567'', expires_at := 602000, created_at := 2000\<rparr>"
  have s: "select_ok ?y" "mark_ok ?y" by (simp_all add: later_env_def dev_env_def)
  have l1: "live_match ?y (body_ab ''123456'') row_ab"
    by (simp add: live_match_def dest_eq_def body_ab_def row_ab_def later_env_def)
  have l2: "\<not> live_match ?y (body_ab ''123456'') ?new"
    by (simp add: live_match_def body_ab_def)
  have a: "\<not> attempts_exceeded row_ab"
    by (simp add: attempts_exceeded_def MAX_OTP_ATTEMPTS_def row_ab_def)
  have v: "fst (verify_otp ?y (body_ab ''123456'') [row_ab, ?new]) = VerifiedOk"
    unfolding verify_otp_valid [OF v123456 s(1)] using s(2) l1 l2 a by simp
  show ?thesis
    by (simp add: issue_dev_ab issue_failing_update v) (simp add: row_ab_def)
qed

text \<open>
  What holds of the code, for both kinds of destination: when the invalidating update and
  the insert succeed, every earlier row of the destination is verified afterwards, a
  well-formed code other than the newest is refused, and the newest code verifies before
  the stored expiry.
\<close>

lemma reissue_email_when_update_succeeds:
  assumes "emailRegex_test e" and "random_draw x < 900000" and "expiresAt x = Some ex"
    and "invalidate_ok x" and "insert_ok x"
    and "req_type b = ''email''" and "req_email b = e" and "select_ok y"
  shows "(\<forall>i < length t. fst (snd (send_email_otp x e t)) ! i =
            (if row_email (t ! i) = Some e \<and> row_type (t ! i) = ''email''
             then (t ! i)\<lparr>verified := True\<rparr> else t ! i)) \<and>
         (\<not> bad_otp_format (req_otp b) \<and> req_otp b \<noteq> generateOTP (random_draw x) \<longrightarrow>
            fst (verify_otp y b (fst (snd (send_email_otp x e t)))) = InvalidOrExpiredCode) \<and>
         (req_otp b = generateOTP (random_draw x) \<and> mark_ok y \<and> clock y < ex \<longrightarrow>
            fst (verify_otp y b (fst (snd (send_email_otp x e t)))) = VerifiedOk)"
proof (intro conjI impI)
  let ?otp = "generateOTP (random_draw x)"
  let ?t1 = "update_where (\<lambda>r. row_email r = Some e \<and> row_type r = ''email'' \<and> verified r = False)
       (\<lambda>r. r\<lparr>verified := True\<rparr>) t"
  let ?new = "\<lparr>row_id = fresh_id ?t1, row_email = Some e, row_phone = None, otp_code = ?otp,
       row_type = ''email'', expires_at = ex, verified = False, attempts = Some 0,
       created_at = db_clock x\<rparr>"
  have tab: "fst (snd (send_email_otp x e t)) = ?t1 @ [?new]"
    by (rule send_email_otp_table [OF assms(1,3,5,4)])
  have np: "\<forall>r \<in> set ?t1. \<not> pending_match b r"
    using invalidate_email_no_pending [OF assms(6), of t] assms(7) by simp
  show "\<forall>i < length t. fst (snd (send_email_otp x e t)) ! i =
         (if row_email (t ! i) = Some e \<and> row_type (t ! i) = ''email''
          then (t ! i)\<lparr>verified := True\<rparr> else t ! i)"
    unfolding tab by (simp add: update_where_def nth_append)
  {
    assume w: "\<not> bad_otp_format (req_otp b) \<and> req_otp b \<noteq> ?otp"
    have v: "valid_request b"
      using assms(6,7) w email_nonempty [OF assms(1)] by (simp add: valid_request_email)
    have d: "otp_code ?new \<noteq> req_otp b" using w by auto
    show "fst (verify_otp y b (fst (snd (send_email_otp x e t)))) = InvalidOrExpiredCode"
      unfolding tab by (rule verify_after_issue_wrong [OF v assms(8) np d])
  }
  {
    assume g: "req_otp b = ?otp \<and> mark_ok y \<and> clock y < ex"
    have v: "valid_request b"
      using assms(6,7) g email_nonempty [OF assms(1)] generateOTP_format [OF assms(2)]
      by (simp add: valid_request_email)
    have m: "mark_ok y" using g by simp
    have lv: "live_match y b ?new" using assms(6,7) g by (simp add: live_match_def dest_eq_def)
    show "fst (verify_otp y b (fst (snd (send_email_otp x e t)))) = VerifiedOk"
      unfolding tab using verify_after_issue_ok [OF v assms(8) m np lv] by simp
  }
qed

lemma reissue_phone_when_update_succeeds:
  assumes "p \<noteq> []" and "twilio_ready x" and "random_draw x < 900000" and "expiresAt x = Some ex"
    and "invalidate_ok x" and "insert_ok x"
    and "req_type b = ''phone''" and "req_phone b = p" and "select_ok y"
  shows "(\<forall>i < length t. fst (snd (send_phone_otp x p t)) ! i =
            (if row_phone (t ! i) = Some (formatPhoneNumber p) \<and> row_type (t ! i) = ''phone''
             then (t ! i)\<lparr>verified := True\<rparr> else t ! i)) \<and>
         (\<not> bad_otp_format (req_otp b) \<and> req_otp b \<noteq> generateOTP (random_draw x) \<longrightarrow>
            fst (verify_otp y b (fst (snd (send_phone_otp x p t)))) = InvalidOrExpiredCode) \<and>
         (req_otp b = generateOTP (random_draw x) \<and> mark_ok y \<and> clock y < ex \<longrightarrow>
            fst (verify_otp y b (fst (snd (send_phone_otp x p t)))) = VerifiedOk)"
proof (intro conjI impI)
  let ?otp = "generateOTP (random_draw x)"
  let ?fp = "formatPhoneNumber p"
  let ?t1 = "update_where (\<lambda>r. row_phone r = Some ?fp \<and> row_type r = ''phone'' \<and> verified r = False)
       (\<lambda>r. r\<lparr>verified := True\<rparr>) t"
  let ?new = "\<lparr>row_id = fresh_id ?t1, row_email = None, row_phone = Some ?fp, otp_code = ?otp,
       row_type = ''phone'', expires_at = ex, verified = False, attempts = Some 0,
       created_at = db_clock x\<rparr>"
  have tab: "fst (snd (send_phone_otp x p t)) = ?t1 @ [?new]"
    by (rule send_phone_otp_table [OF assms(1,2,4,6,5)])
  have np: "\<forall>r \<in> set ?t1. \<not> pending_match b r"
    using invalidate_phone_no_pending [OF assms(7), of t] assms(8) by simp
  show "\<forall>i < length t. fst (snd (send_phone_otp x p t)) ! i =
         (if row_phone (t ! i) = Some ?fp \<and> row_type (t ! i) = ''phone''
          then (t ! i)\<lparr>verified := True\<rparr> else t ! i)"
    unfolding tab by (simp add: update_where_def nth_append)
  {
    assume w: "\<not> bad_otp_format (req_otp b) \<and> req_otp b \<noteq> ?otp"
    have v: "valid_request b" using assms(1,7,8) w by (simp add: valid_request_phone)
    have d: "otp_code ?new \<noteq> req_otp b" using w by auto
    show "fst (verify_otp y b (fst (snd (send_phone_otp x p t)))) = InvalidOrExpiredCode"
      unfolding tab by (rule verify_after_issue_wrong [OF v assms(9) np d])
  }
  {
    assume g: "req_otp b = ?otp \<and> mark_ok y \<and> clock y < ex"
    have v: "valid_request b"
      using assms(1,7,8) g generateOTP_format [OF assms(3)] by (simp add: valid_request_phone)
    have m: "mark_ok y" using g by simp
    have lv: "live_match y b ?new"
      using assms(1,7,8) g by (simp add: live_match_def dest_eq_def formattedPhone_def)
    show "fst (verify_otp y b (fst (snd (send_phone_otp x p t)))) = VerifiedOk"
      unfolding tab using verify_after_issue_ok [OF v assms(9) m np lv] by simp
  }
qed

section \<open>The attempt limit\<close>

text \<open>
  C3: when an unverified, unexpired row of the destination carries the submitted code and
  its attempts counter has reached 5 (and so has that of every other such row, as when it
  is the only one), a well-formed verification with that code, its lookup succeeding, is
  answered with the maximum-attempts error, and the table (the verified flag and the
  attempts counter of every row) is left as it was.
\<close>

theorem max_attempts_blocks_correct_code:
  assumes "valid_request b" and "select_ok x"
    and "r \<in> set t" and "live_match x b r" and "MAX_OTP_ATTEMPTS \<le> attempts_or_0 r"
    and "\<forall>q \<in> set t. live_match x b q \<longrightarrow> MAX_OTP_ATTEMPTS \<le> attempts_or_0 q"
  shows "verify_otp x b t = (MaxAttemptsReached, t, [DbSelect]) \<and>
         outcome_of (fst (verify_otp x b t)) = MaxAttemptsExceeded"
proof -
  have "filter (live_match x b) t \<noteq> []" using assms(3,4) by (auto simp: filter_empty_conv)
  then obtain q where q: "newest (filter (live_match x b) t) = Some q"
    using newest_None_iff [of "filter (live_match x b) t"] by (cases "newest (filter (live_match x b) t)") auto
  then have "q \<in> set t \<and> live_match x b q" by (rule newest_filter)
  then have "attempts_exceeded q" using assms(6) by (simp add: attempts_exceeded_iff)
  then show ?thesis using q by (simp add: verify_otp_valid [OF assms(1,2)])
qed

theorem max_attempts_blocks_correct_code_witness:
  "valid_request (body_ab ''123456'') \<and> select_ok dev_env \<and>
   repeat_verify 5 dev_env (body_ab ''000000'') [row_ab] = [row_ab\<lparr>attempts := Some 5\<rparr>] \<and>
   live_match dev_env (body_ab ''123456'') (row_ab\<lparr>attempts := Some 5\<rparr>) \<and>
   MAX_OTP_ATTEMPTS \<le> attempts_or_0 (row_ab\<lparr>attempts := Some 5\<rparr>) \<and>
   verify_otp dev_env (body_ab ''123456'') (repeat_verify 5 dev_env (body_ab ''000000'') [row_ab]) =
     (MaxAttemptsReached, [row_ab\<lparr>attempts := Some 5\<rparr>], [DbSelect])"
proof -
  have v: "valid_request (body_ab ''123456'')" using d123456 by (simp add: valid_body_ab)
  have s: "select_ok dev_env" by (simp add: dev_env_def)
  have m: "r5 \<in> set [r5]" for r5 :: otp_row by simp
  have l: "live_match dev_env (body_ab ''123456'') (row_ab\<lparr>attempts := Some 5\<rparr>)"
    by (simp add: live_match_def dest_eq_def body_ab_def row_ab_def dev_env_def)
  have a: "MAX_OTP_ATTEMPTS \<le> attempts_or_0 (row_ab\<lparr>attempts := Some 5\<rparr>)"
    by (simp add: MAX_OTP_ATTEMPTS_def attempts_or_0_def)
  have q: "\<forall>q \<in> set [row_ab\<lparr>attempts := Some 5\<rparr>].
      live_match dev_env (body_ab ''123456'') q \<longrightarrow> MAX_OTP_ATTEMPTS \<le> attempts_or_0 q"
    using a by simp
  have r: "verify_otp dev_env (body_ab ''123456'') [row_ab\<lparr>attempts := Some 5\<rparr>] =
     (MaxAttemptsReached, [row_ab\<lparr>attempts := Some 5\<rparr>], [DbSelect])"
    using max_attempts_blocks_correct_code [OF v s m l a q] by blast
  show ?thesis
    unfolding five_wrong_codes_ab using v s l a r by blast
qed

section \<open>Only live rows verify\<close>

text \<open>
  C4: a verification succeeds only on a row that carries the submitted code for the
  destination, is unverified and expires strictly after the time of the request. When
  every row carrying the code for the destination is verified already or has its expiry
  behind it, the answer to a well-formed request (its lookup succeeding) is the
  invalid-or-expired error, even though the code matches;
  in particular a second verification with the same code after a successful one gets that
  answer (the verified row being the only unverified one that carried the code).
\<close>

theorem only_live_rows_verify:
  "(fst (verify_otp x b t) = VerifiedOk \<longrightarrow>
      (\<exists>r \<in> set t. code_match b r \<and> \<not> verified r \<and> clock x < expires_at r)) \<and>
   (valid_request b \<and> select_ok x \<and>
    (\<forall>r \<in> set t. code_match b r \<longrightarrow> verified r \<or> expires_at r \<le> clock x) \<longrightarrow>
      fst (verify_otp x b t) = InvalidOrExpiredCode \<and>
      outcome_of (fst (verify_otp x b t)) = InvalidOrExpired) \<and>
   (valid_request b \<and> select_ok x' \<and> fst (verify_otp x b t) = VerifiedOk \<and>
    (\<forall>r \<in> set t. \<forall>q \<in> set t.
        code_match b r \<and> \<not> verified r \<and> code_match b q \<and> \<not> verified q \<longrightarrow> r = q) \<longrightarrow>
      fst (verify_otp x' b (fst (snd (verify_otp x b t)))) = InvalidOrExpiredCode)"
proof (intro conjI impI)
  assume "fst (verify_otp x b t) = VerifiedOk"
  then obtain q where "newest (filter (live_match x b) t) = Some q"
    using verified_ok_found by blast
  then have "q \<in> set t \<and> live_match x b q" by (rule newest_filter)
  then show "\<exists>r \<in> set t. code_match b r \<and> \<not> verified r \<and> clock x < expires_at r"
    by (auto simp: live_match_code)
next
  assume a: "valid_request b \<and> select_ok x \<and>
    (\<forall>r \<in> set t. code_match b r \<longrightarrow> verified r \<or> expires_at r \<le> clock x)"
  then have "\<forall>r \<in> set t. \<not> live_match x b r" by (auto simp: live_match_code)
  then show i: "fst (verify_otp x b t) = InvalidOrExpiredCode"
    using a no_live_invalid by blast
  show "outcome_of (fst (verify_otp x b t)) = InvalidOrExpired" by (simp add: i)
next
  assume a: "valid_request b \<and> select_ok x' \<and> fst (verify_otp x b t) = VerifiedOk \<and>
    (\<forall>r \<in> set t. \<forall>q \<in> set t.
        code_match b r \<and> \<not> verified r \<and> code_match b q \<and> \<not> verified q \<longrightarrow> r = q)"
  then obtain q where q: "newest (filter (live_match x b) t) = Some q"
    and tab: "fst (snd (verify_otp x b t)) =
               update_where (\<lambda>r. row_id r = row_id q) (\<lambda>r. r\<lparr>verified := True\<rparr>) t"
    using verified_ok_found by blast
  have qm: "q \<in> set t" "code_match b q" "\<not> verified q"
    using newest_filter [OF q] by (simp_all add: live_match_code)
  have "\<not> live_match x' b r'" if r': "r' \<in> set (fst (snd (verify_otp x b t)))" for r'
  proof
    assume l: "live_match x' b r'"
    from r' obtain r where r: "r \<in> set t"
      and eq: "r' = (if row_id r = row_id q then r\<lparr>verified := True\<rparr> else r)"
      unfolding tab update_where_def by auto
    have nv: "\<not> verified r'" using l by (simp add: live_match_code)
    then have ne: "row_id r \<noteq> row_id q" using eq by (auto split: if_splits)
    then have "r' = r" using eq by simp
    then have "code_match b r \<and> \<not> verified r" using l by (simp add: live_match_code)
    then have "r = q" using a r qm by blast
    then show False using ne by simp
  qed
  then show "fst (verify_otp x' b (fst (snd (verify_otp x b t)))) = InvalidOrExpiredCode"
    using a no_live_invalid by blast
qed

theorem only_live_rows_verify_witness:
  "fst (verify_otp dev_env (body_ab ''123456'') [row_ab]) = VerifiedOk \<and>
   code_match (body_ab ''123456'') row_ab \<and> \<not> verified row_ab \<and> clock dev_env < expires_at row_ab \<and>
   valid_request (body_ab ''123456'') \<and> select_ok (dev_env\<lparr>clock := 601000\<rparr>) \<and>
   expires_at row_ab \<le> clock (dev_env\<lparr>clock := 601000\<rparr>) \<and>
   fst (verify_otp (dev_env\<lparr>clock := 601000\<rparr>) (body_ab ''123456'') [row_ab]) = InvalidOrExpiredCode \<and>
   select_ok dev_env \<and>
   fst (verify_otp dev_env (body_ab ''123456'')
          (fst (snd (verify_otp dev_env (body_ab ''123456'') [row_ab])))) = InvalidOrExpiredCode"
proof -
  let ?b = "body_ab ''123456''"
  let ?late = "dev_env\<lparr>clock := 601000\<rparr>"
  have s: "select_ok dev_env" "mark_ok dev_env" "clock dev_env < 601000" "select_ok ?late"
    by (simp_all add: dev_env_def)
  have ok: "fst (verify_otp dev_env ?b [row_ab]) = VerifiedOk"
    using verify_ab_ok [OF s(3,1,2)] by simp
  have cm: "code_match ?b row_ab" by (simp add: code_match_def dest_eq_def body_ab_def row_ab_def)
  have nv: "\<not> verified row_ab" by (simp add: row_ab_def)
  have ex: "clock dev_env < expires_at row_ab" "expires_at row_ab \<le> clock ?late"
    by (simp_all add: row_ab_def dev_env_def)
  have dead: "\<forall>r \<in> set [row_ab]. code_match ?b r \<longrightarrow> verified r \<or> expires_at r \<le> clock ?late"
    using ex(2) by simp
  have uniq: "\<forall>r \<in> set [row_ab]. \<forall>q \<in> set [row_ab].
      code_match ?b r \<and> \<not> verified r \<and> code_match ?b q \<and> \<not> verified q \<longrightarrow> r = q" by simp
  have late: "fst (verify_otp ?late ?b [row_ab]) = InvalidOrExpiredCode"
    using only_live_rows_verify [of ?late ?b "[row_ab]" dev_env] v123456 s(4) dead by blast
  have again: "fst (verify_otp dev_env ?b (fst (snd (verify_otp dev_env ?b [row_ab])))) = InvalidOrExpiredCode"
    using only_live_rows_verify [of dev_env ?b "[row_ab]" dev_env] v123456 s(1) ok uniq by blast
  show ?thesis using ok cm nv ex v123456 s late again by blast
qed

section \<open>Failed verifications\<close>

text \<open>
  C5 (as the specification states it): a verification whose code matches no live row
  increases the attempts counter of the most recent unverified row of the destination by
  exactly 1. The handler adds in doubles: at a stored counter of \<open>2^53\<close> the sum is
  \<open>2^53\<close> again and the counter is written back as it was.
\<close>

theorem wrong_code_at_double_limit_counterexample:
  "attempts (row_ab\<lparr>attempts := Some 9007199254740992\<rparr>) = Some 9007199254740992 \<and>
   fst (verify_otp dev_env (body_ab ''000000'') [row_ab\<lparr>attempts := Some 9007199254740992\<rparr>]) =
     InvalidOrExpiredCode \<and>
   fst (snd (verify_otp dev_env (body_ab ''000000'') [row_ab\<lparr>attempts := Some 9007199254740992\<rparr>])) =
     [row_ab\<lparr>attempts := Some 9007199254740992\<rparr>] \<and>
   attempts (hd (fst (snd (verify_otp dev_env (body_ab ''000000'')
     [row_ab\<lparr>attempts := Some 9007199254740992\<rparr>])))) \<noteq> Some (9007199254740992 + 1)"
  by (simp add: wrong_code_at_limit_ab)

text \<open>
  C5 (amended): a verification whose well-formed code matches no live row of the
  destination is answered (its lookup succeeding) with the invalid-or-expired error,
  whether or not the attempt could be recorded. When the destination has an unverified
  row, the counters of its unverified rows are below \<open>2^53\<close> and the two store calls
  succeed, the attempts counter of a most recent such row is increased by exactly one (a
  null counter becomes 1) and nothing else changes; when the destination has no
  unverified row, or a store call fails, the table is left as it was.
\<close>

theorem wrong_code_counts_attempt:
  assumes "valid_request b" and "select_ok x" and "\<forall>r \<in> set t. \<not> live_match x b r"
  shows "fst (verify_otp x b t) = InvalidOrExpiredCode \<and>
         outcome_of (fst (verify_otp x b t)) = InvalidOrExpired \<and>
         ((\<forall>r \<in> set t. \<not> pending_match b r) \<longrightarrow> fst (snd (verify_otp x b t)) = t) \<and>
         (\<not> (attempt_select_ok x \<and> attempt_update_ok x) \<longrightarrow> fst (snd (verify_otp x b t)) = t) \<and>
         (attempt_select_ok x \<and> attempt_update_ok x \<and> distinct (map row_id t) \<and>
          (\<exists>r \<in> set t. pending_match b r) \<and>
          (\<forall>r \<in> set t. \<forall>n. pending_match b r \<and> attempts r = Some n \<longrightarrow> n < 9007199254740992) \<longrightarrow>
            (\<exists>r0 \<in> set t. pending_match b r0 \<and>
               (\<forall>q \<in> set t. pending_match b q \<longrightarrow> created_at q \<le> created_at r0) \<and>
               fst (snd (verify_otp x b t)) =
                 map (\<lambda>r. if r = r0
                          then r\<lparr>attempts := (case attempts r0 of None \<Rightarrow> Some 1 | Some n \<Rightarrow> Some (n + 1))\<rparr>
                          else r) t))"
proof -
  have n: "newest (filter (live_match x b) t) = None" using assms(3) by (simp add: newest_filter_None)
  have v: "verify_otp x b t =
      (if \<not> attempt_select_ok x then (InvalidOrExpiredCode, t, [DbSelect, DbSelect])
       else
         (case newest (filter (pending_match b) t) of
            None \<Rightarrow> (InvalidOrExpiredCode, t, [DbSelect, DbSelect])
          | Some recent \<Rightarrow>
              (InvalidOrExpiredCode,
               (if attempt_update_ok x
                then update_where (\<lambda>r. row_id r = row_id recent)
                       (\<lambda>r. r\<lparr>attempts := attempts_plus_one x recent\<rparr>) t
                else t),
               [DbSelect, DbSelect, DbUpdate])))"
    using n by (simp add: verify_otp_valid [OF assms(1,2)])
  have 1: "fst (verify_otp x b t) = InvalidOrExpiredCode"
    unfolding v by (simp split: option.splits)
  have 2: "(\<forall>r \<in> set t. \<not> pending_match b r) \<longrightarrow> fst (snd (verify_otp x b t)) = t"
    unfolding v by (simp add: newest_filter_None [symmetric])
  have 3: "\<not> (attempt_select_ok x \<and> attempt_update_ok x) \<longrightarrow> fst (snd (verify_otp x b t)) = t"
    unfolding v by (simp split: option.splits)
  have 4: "attempt_select_ok x \<and> attempt_update_ok x \<and> distinct (map row_id t) \<and>
          (\<exists>r \<in> set t. pending_match b r) \<and>
          (\<forall>r \<in> set t. \<forall>n. pending_match b r \<and> attempts r = Some n \<longrightarrow> n < 9007199254740992) \<longrightarrow>
            (\<exists>r0 \<in> set t. pending_match b r0 \<and>
               (\<forall>q \<in> set t. pending_match b q \<longrightarrow> created_at q \<le> created_at r0) \<and>
               fst (snd (verify_otp x b t)) =
                 map (\<lambda>r. if r = r0
                          then r\<lparr>attempts := (case attempts r0 of None \<Rightarrow> Some 1 | Some n \<Rightarrow> Some (n + 1))\<rparr>
                          else r) t)"
  proof
    assume a: "attempt_select_ok x \<and> attempt_update_ok x \<and> distinct (map row_id t) \<and>
          (\<exists>r \<in> set t. pending_match b r) \<and>
          (\<forall>r \<in> set t. \<forall>n. pending_match b r \<and> attempts r = Some n \<longrightarrow> n < 9007199254740992)"
    then have as: "attempt_select_ok x" and au: "attempt_update_ok x"
      and d: "distinct (map row_id t)" by blast+
    from a have "newest (filter (pending_match b) t) \<noteq> None" by (simp add: newest_filter_None)
    then obtain r0 where r0: "newest (filter (pending_match b) t) = Some r0" by blast
    have mem: "r0 \<in> set t \<and> pending_match b r0" using newest_filter [OF r0] .
    have mx: "\<forall>q \<in> set t. pending_match b q \<longrightarrow> created_at q \<le> created_at r0"
      using newest_max [OF r0] by simp
    have safe: "\<forall>n. attempts r0 = Some n \<longrightarrow> n < 9007199254740992" using a mem by blast
    have p: "attempts_plus_one x r0 = (case attempts r0 of None \<Rightarrow> Some 1 | Some n \<Rightarrow> Some (n + 1))"
      using safe by (simp add: attempts_plus_one_def split: option.splits)
    have "fst (snd (verify_otp x b t)) =
        update_where (\<lambda>r. row_id r = row_id r0) (\<lambda>r. r\<lparr>attempts := attempts_plus_one x r0\<rparr>) t"
      using failed_verify_table [OF assms as au r0] by simp
    also have "\<dots> = map (\<lambda>r. if r = r0 then r\<lparr>attempts := attempts_plus_one x r0\<rparr> else r) t"
      using update_by_id [OF d] mem by blast
    finally have "fst (snd (verify_otp x b t)) =
        map (\<lambda>r. if r = r0
                 then r\<lparr>attempts := (case attempts r0 of None \<Rightarrow> Some 1 | Some n \<Rightarrow> Some (n + 1))\<rparr>
                 else r) t"
      by (simp add: p)
    then show "\<exists>r0 \<in> set t. pending_match b r0 \<and>
               (\<forall>q \<in> set t. pending_match b q \<longrightarrow> created_at q \<le> created_at r0) \<and>
               fst (snd (verify_otp x b t)) =
                 map (\<lambda>r. if r = r0
                          then r\<lparr>attempts := (case attempts r0 of None \<Rightarrow> Some 1 | Some n \<Rightarrow> Some (n + 1))\<rparr>
                          else r) t"
      using mem mx by blast
  qed
  show ?thesis using 1 2 3 4 by simp
qed

theorem wrong_code_counts_attempt_witness:
  "valid_request (body_ab ''000000'') \<and> select_ok dev_env \<and>
   \<not> live_match dev_env (body_ab ''000000'') (row_ab\<lparr>attempts := Some 3\<rparr>) \<and>
   attempt_select_ok dev_env \<and> attempt_update_ok dev_env \<and>
   distinct (map row_id [row_ab\<lparr>attempts := Some 3\<rparr>]) \<and>
   pending_match (body_ab ''000000'') (row_ab\<lparr>attempts := Some 3\<rparr>) \<and>
   attempts (row_ab\<lparr>attempts := Some 3\<rparr>) = Some 3 \<and> (3::nat) < 9007199254740992 \<and>
   fst (verify_otp dev_env (body_ab ''000000'') [row_ab\<lparr>attempts := Some 3\<rparr>]) = InvalidOrExpiredCode \<and>
   fst (snd (verify_otp dev_env (body_ab ''000000'') [row_ab\<lparr>attempts := Some 3\<rparr>])) =
     [row_ab\<lparr>attempts := Some 4\<rparr>]"
proof -
  let ?r = "row_ab\<lparr>attempts := Some 3\<rparr>"
  have s: "select_ok dev_env" "attempt_select_ok dev_env" "attempt_update_ok dev_env"
    by (simp_all add: dev_env_def)
  have l': "\<not> live_match dev_env (body_ab ''000000'') ?r" by (simp add: ab_live)
  have p': "pending_match (body_ab ''000000'') ?r" by (rule ab_pending)
  have l: "\<forall>r \<in> set [?r]. \<not> live_match dev_env (body_ab ''000000'') r" using l' by simp
  have p: "\<exists>r \<in> set [?r]. pending_match (body_ab ''000000'') r" using p' by simp
  have d: "distinct (map row_id [?r])" by simp
  have f: "\<forall>r \<in> set [?r]. \<forall>n. pending_match (body_ab ''000000'') r \<and> attempts r = Some n \<longrightarrow>
             n < 9007199254740992" by simp
  note th = wrong_code_counts_attempt [OF v000000 s(1) l]
  have a: "fst (verify_otp dev_env (body_ab ''000000'') [?r]) = InvalidOrExpiredCode"
    using th by blast
  have "\<exists>r0 \<in> set [?r]. fst (snd (verify_otp dev_env (body_ab ''000000'') [?r])) =
          map (\<lambda>r. if r = r0
                   then r\<lparr>attempts := (case attempts r0 of None \<Rightarrow> Some 1 | Some n \<Rightarrow> Some (n + 1))\<rparr>
                   else r) [?r]"
    using th s p d f by blast
  then have b: "fst (snd (verify_otp dev_env (body_ab ''000000'') [?r])) = [row_ab\<lparr>attempts := Some 4\<rparr>]"
    by simp
  have c: "attempts ?r = Some 3" "(3::nat) < 9007199254740992" by simp_all
  show ?thesis using v000000 s l' p' d c a b by blast
qed

section \<open>Echo of the code\<close>

text \<open>
  C6: a response of the email or phone issuer carries the generated code only when the
  deployment mode is not production (the handlers add it exactly when \<open>NODE_ENV\<close> is
  \<open>development\<close>); in production the response has no code and is the same whatever
  code was generated.
\<close>

theorem otp_echo_only_in_development:
  "(otp_field (fst (send_email_otp x e t)) = Some c \<longrightarrow>
      NODE_ENV x = Some ''development'' \<and> NODE_ENV x \<noteq> Some ''production'') \<and>
   (otp_field (fst (send_phone_otp x p t)) = Some c \<longrightarrow>
      NODE_ENV x = Some ''development'' \<and> NODE_ENV x \<noteq> Some ''production'') \<and>
   (NODE_ENV x = Some ''production'' \<longrightarrow>
      otp_field (fst (send_email_otp x e t)) = None \<and>
      otp_field (fst (send_phone_otp x p t)) = None \<and>
      fst (send_email_otp (x\<lparr>random_draw := k\<rparr>) e t) = fst (send_email_otp x e t) \<and>
      fst (send_phone_otp (x\<lparr>random_draw := k\<rparr>) p t) = fst (send_phone_otp x p t))"
proof (intro conjI impI)
  assume "otp_field (fst (send_email_otp x e t)) = Some c"
  then show "NODE_ENV x = Some ''development''"
    by (simp add: send_email_otp_def Let_def split: if_splits option.splits)
  then show "NODE_ENV x \<noteq> Some ''production''" by simp
next
  assume "otp_field (fst (send_phone_otp x p t)) = Some c"
  then show "NODE_ENV x = Some ''development''"
    by (simp add: send_phone_otp_def Let_def split: if_splits option.splits)
  then show "NODE_ENV x \<noteq> Some ''production''" by simp
next
  assume prod: "NODE_ENV x = Some ''production''"
  show "otp_field (fst (send_email_otp x e t)) = None"
    using prod by (simp add: send_email_otp_def Let_def split: option.splits)
  show "otp_field (fst (send_phone_otp x p t)) = None"
    using prod by (simp add: send_phone_otp_def Let_def split: option.splits)
  show "fst (send_email_otp (x\<lparr>random_draw := k\<rparr>) e t) = fst (send_email_otp x e t)"
    using prod by (simp add: send_email_otp_def Let_def expiresAt_random_draw split: option.splits)
  show "fst (send_phone_otp (x\<lparr>random_draw := k\<rparr>) p t) = fst (send_phone_otp x p t)"
    using prod by (simp add: send_phone_otp_def Let_def expiresAt_random_draw split: option.splits)
qed

theorem otp_echo_only_in_development_witness:
  "otp_field (fst (send_email_otp dev_env ''a@b.com'' [])) = Some ''123456'' \<and>
   otp_field (fst (send_phone_otp dev_env ''(555) 123-4567'' [])) = Some ''123456'' \<and>
   NODE_ENV dev_env = Some ''development'' \<and>
   NODE_ENV prod_env = Some ''production'' \<and>
   otp_field (fst (send_email_otp prod_env ''a@b.com'' [])) = None \<and>
   fst (send_email_otp (prod_env\<lparr>random_draw := 7\<rparr>) ''a@b.com'' []) =
     fst (send_email_otp prod_env ''a@b.com'' [])"
proof -
  have h1: "otp_field (fst (send_email_otp dev_env ''a@b.com'' [])) = Some ''123456''"
    by (simp add: issue_dev_ab)
  have h2: "otp_field (fst (send_phone_otp dev_env ''(555) 123-4567'' [])) = Some ''123456''"
    by (simp add: issue_dev_phone)
  have h3: "NODE_ENV prod_env = Some ''production''" by (simp add: prod_env_def)
  have d: "NODE_ENV dev_env = Some ''development''"
    using h1 otp_echo_only_in_development [of dev_env "''a@b.com''" "[]" "''123456''" "''(555) 123-4567''" 7]
    by blast
  have p: "otp_field (fst (send_email_otp prod_env ''a@b.com'' [])) = None \<and>
      fst (send_email_otp (prod_env\<lparr>random_draw := 7\<rparr>) ''a@b.com'' []) =
        fst (send_email_otp prod_env ''a@b.com'' [])"
    using h3 otp_echo_only_in_development [of prod_env "''a@b.com''" "[]" "''123456''" "''(555) 123-4567''" 7]
    by blast
  show ?thesis using h1 h2 h3 d p by blast
qed

section \<open>Phone normalisation\<close>

text \<open>
  C7 (as the specification states it): normalisation strips every character except ASCII
  digits and a leading \<open>+\<close>. The code keeps every \<open>+\<close>, wherever it stands: on \<open>5+5\<close> it
  returns \<open>+15+5\<close>, where the specification's wording gives \<open>+155\<close>.
\<close>

theorem formatPhoneNumber_inner_plus_counterexample:
  "formatPhoneNumber ''5+5'' = ''+15+5'' \<and> normalize_spec ''5+5'' = ''+155'' \<and>
   formatPhoneNumber ''5+5'' \<noteq> normalize_spec ''5+5''"
  by (simp add: formatPhoneNumber_def normalize_spec_def startsWith_def isDigit_def)

text \<open>
  C7 (amended): normalisation removes every character except ASCII digits and \<open>+\<close> (a \<open>+\<close>
  is kept at any position), and a result that does not start with \<open>+\<close> gets \<open>+1\<close> in front.
  On every input whose only \<open>+\<close>, if any, is the first character kept, this is the
  normalisation the specification words; the two examples of the specification hold.
\<close>

theorem formatPhoneNumber_keeps_digits_and_plus:
  "formatPhoneNumber p =
     (if startsWith (filter (\<lambda>c. isDigit c \<or> c = CHR ''+'') p) (CHR ''+'')
      then filter (\<lambda>c. isDigit c \<or> c = CHR ''+'') p
      else ''+1'' @ filter (\<lambda>c. isDigit c \<or> c = CHR ''+'') p) \<and>
   (CHR ''+'' \<notin> set (tl (filter (\<lambda>c. isDigit c \<or> c = CHR ''+'') p)) \<longrightarrow>
      formatPhoneNumber p = normalize_spec p) \<and>
   formatPhoneNumber ''(555) 123-4567'' = ''+15551234567'' \<and>
   formatPhoneNumber ''+44 20 7946 0958'' = ''+442079460958''"
proof (intro conjI impI)
  show "formatPhoneNumber p =
     (if startsWith (filter (\<lambda>c. isDigit c \<or> c = CHR ''+'') p) (CHR ''+'')
      then filter (\<lambda>c. isDigit c \<or> c = CHR ''+'') p
      else ''+1'' @ filter (\<lambda>c. isDigit c \<or> c = CHR ''+'') p)"
    by (simp add: formatPhoneNumber_def Let_def)
next
  assume "CHR ''+'' \<notin> set (tl (filter (\<lambda>c. isDigit c \<or> c = CHR ''+'') p))"
  then show "formatPhoneNumber p = normalize_spec p" by (rule format_agrees)
next
  show "formatPhoneNumber ''(555) 123-4567'' = ''+15551234567''"
    by (simp add: formatPhoneNumber_def startsWith_def isDigit_def)
next
  show "formatPhoneNumber ''+44 20 7946 0958'' = ''+442079460958''"
    by (simp add: formatPhoneNumber_def startsWith_def isDigit_def)
qed

theorem formatPhoneNumber_keeps_digits_and_plus_witness:
  "CHR ''+'' \<notin> set (tl (filter (\<lambda>c. isDigit c \<or> c = CHR ''+'') ''+44 20 7946 0958'')) \<and>
   formatPhoneNumber ''+44 20 7946 0958'' = normalize_spec ''+44 20 7946 0958'' \<and>
   normalize_spec ''+44 20 7946 0958'' = ''+442079460958''"
proof -
  have h: "CHR ''+'' \<notin> set (tl (filter (\<lambda>c. isDigit c \<or> c = CHR ''+'') ''+44 20 7946 0958''))"
    by (simp add: isDigit_def)
  have n: "normalize_spec ''+44 20 7946 0958'' = ''+442079460958''"
    by (simp add: normalize_spec_def startsWith_def isDigit_def)
  have "CHR ''+'' \<notin> set (tl (filter (\<lambda>c. isDigit c \<or> c = CHR ''+'') ''+44 20 7946 0958'')) \<longrightarrow>
        formatPhoneNumber ''+44 20 7946 0958'' = normalize_spec ''+44 20 7946 0958''"
    using formatPhoneNumber_keeps_digits_and_plus [of "''+44 20 7946 0958''"] by (elim conjE)
  with h n show ?thesis by blast
qed

section \<open>Validation\<close>

text \<open>
  C8: an email that does not match the structural pattern makes the email issuer answer
  with a validation error, and a submitted code that is not exactly six ASCII digits makes
  the verifier answer with a validation error; in both cases the table is left as it was
  and no call to the store or to a channel is made. So for \<open>not-an-email\<close>, \<open>12a45\<close>
  and \<open>123\<close>.
\<close>

theorem validation_rejects_without_store:
  "(e \<notin> emailRegex_lang \<longrightarrow>
      outcome_of (fst (send_email_otp x e t)) = ValidationError \<and>
      snd (send_email_otp x e t) = (t, [])) \<and>
   (\<not> (length (req_otp b) = 6 \<and> list_all isDigit (req_otp b)) \<longrightarrow>
      outcome_of (fst (verify_otp x b t)) = ValidationError \<and>
      snd (verify_otp x b t) = (t, []))"
proof (intro conjI impI)
  assume "e \<notin> emailRegex_lang"
  then have "\<not> emailRegex_test e" by (simp add: emailRegex_test_iff)
  then show "outcome_of (fst (send_email_otp x e t)) = ValidationError"
    and "snd (send_email_otp x e t) = (t, [])"
    by (simp_all add: send_email_otp_def)
next
  assume "\<not> (length (req_otp b) = 6 \<and> list_all isDigit (req_otp b))"
  then have "bad_otp_format (req_otp b)" by (auto simp: bad_otp_format_def OTP_LENGTH_def)
  then show "outcome_of (fst (verify_otp x b t)) = ValidationError"
    and "snd (verify_otp x b t) = (t, [])"
    by (simp_all add: verify_otp_def)
qed

theorem validation_rejects_without_store_witness:
  "''not-an-email'' \<notin> emailRegex_lang \<and>
   \<not> (length ''12a45'' = 6 \<and> list_all isDigit ''12a45'') \<and>
   \<not> (length ''123'' = 6 \<and> list_all isDigit ''123'') \<and>
   outcome_of (fst (send_email_otp dev_env ''not-an-email'' [])) = ValidationError \<and>
   snd (send_email_otp dev_env ''not-an-email'' []) = ([], []) \<and>
   outcome_of (fst (verify_otp dev_env
     \<lparr>req_email = ''a@b.com'', req_phone = [], req_otp = ''12a45'', req_type = ''email''\<rparr> [])) = ValidationError \<and>
   snd (verify_otp dev_env
     \<lparr>req_email = ''a@b.com'', req_phone = [], req_otp = ''12a45'', req_type = ''email''\<rparr> []) = ([], []) \<and>
   outcome_of (fst (verify_otp dev_env
     \<lparr>req_email = ''a@b.com'', req_phone = [], req_otp = ''123'', req_type = ''email''\<rparr> [])) = ValidationError \<and>
   snd (verify_otp dev_env
     \<lparr>req_email = ''a@b.com'', req_phone = [], req_otp = ''123'', req_type = ''email''\<rparr> []) = ([], [])"
proof -
  have e: "''not-an-email'' \<notin> emailRegex_lang"
    unfolding emailRegex_test_iff [symmetric] by code_simp
  have c1: "\<not> (length ''12a45'' = 6 \<and> list_all isDigit ''12a45'')" by simp
  have c2: "\<not> (length ''123'' = 6 \<and> list_all isDigit ''123'')" by simp
  show ?thesis
    using e c1 c2
      validation_rejects_without_store [of "''not-an-email''" dev_env "[]"
        "\<lparr>req_email = ''a@b.com'', req_phone = [], req_otp = ''12a45'', req_type = ''email''\<rparr>"]
      validation_rejects_without_store [of "''not-an-email''" dev_env "[]"
        "\<lparr>req_email = ''a@b.com'', req_phone = [], req_otp = ''123'', req_type = ''email''\<rparr>"]
    by simp
qed

section \<open>SMS dispatch failure\<close>



section \<open>Reachability of the attempt limit\<close>

text \<open>
  C10 (as the specification states it): on a non-matching code the attempts counter of the
  most recent unverified row is still increased, so that it grows without bound. The
  handler adds in doubles: a counter of \<open>2^53\<close> is written back unchanged, however often
  the wrong code is submitted.
\<close>

theorem attempts_stall_at_double_limit_counterexample:
  "MAX_OTP_ATTEMPTS \<le> attempts_or_0 (row_ab\<lparr>attempts := Some 9007199254740992\<rparr>) \<and>
   repeat_verify 1 dev_env (body_ab ''000000'') [row_ab\<lparr>attempts := Some 9007199254740992\<rparr>] =
     [row_ab\<lparr>attempts := Some 9007199254740992\<rparr>] \<and>
   repeat_verify 2 dev_env (body_ab ''000000'') [row_ab\<lparr>attempts := Some 9007199254740992\<rparr>] =
     [row_ab\<lparr>attempts := Some 9007199254740992\<rparr>]"
proof -
  have 1: "repeat_verify 1 dev_env (body_ab ''000000'') [row_ab\<lparr>attempts := Some 9007199254740992\<rparr>] =
     [row_ab\<lparr>attempts := Some 9007199254740992\<rparr>]"
    by (simp add: wrong_code_at_limit_ab)
  have "repeat_verify 2 dev_env (body_ab ''000000'') [row_ab\<lparr>attempts := Some 9007199254740992\<rparr>] =
        repeat_verify (Suc (Suc 0)) dev_env (body_ab ''000000'') [row_ab\<lparr>attempts := Some 9007199254740992\<rparr>]"
    by (simp add: numeral_2_eq_2)
  then have 2: "repeat_verify 2 dev_env (body_ab ''000000'') [row_ab\<lparr>attempts := Some 9007199254740992\<rparr>] =
     [row_ab\<lparr>attempts := Some 9007199254740992\<rparr>]"
    by (simp add: wrong_code_at_limit_ab)
  show ?thesis using 1 2 by (simp add: MAX_OTP_ATTEMPTS_def attempts_or_0_def)
qed

text \<open>
  C10 (amended): the maximum-attempts answer is given only when the submitted code matches
  a live row (whose attempts counter is at least 5). A well-formed code that matches no
  live row, submitted against a destination whose most recent unverified row already has
  5 or more attempts (and fewer than \<open>2^53\<close>), is answered with the invalid-or-expired
  error, not the maximum-attempts one, and (the store calls succeeding) the attempts
  counter of that row is still increased by one; no limit is applied on this path, so
  submitted \<open>n\<close> times in a row the code raises the counter by \<open>n\<close>, beyond 5 and as far as
  \<open>2^53\<close>.
\<close>

theorem max_attempts_needs_matching_code:
  "(fst (verify_otp x b t) = MaxAttemptsReached \<longrightarrow>
      (\<exists>r \<in> set t. live_match x b r \<and> MAX_OTP_ATTEMPTS \<le> attempts_or_0 r)) \<and>
   (valid_request b \<and> select_ok x \<and> attempt_select_ok x \<and> attempt_update_ok x \<and>
    distinct (map row_id t) \<and> (\<forall>r \<in> set t. \<not> live_match x b r) \<and>
    r0 \<in> set t \<and> pending_match b r0 \<and>
    (\<forall>q \<in> set t. pending_match b q \<and> q \<noteq> r0 \<longrightarrow> created_at q < created_at r0) \<and>
    attempts r0 = Some a \<and> MAX_OTP_ATTEMPTS \<le> a \<and> a < 9007199254740992 \<longrightarrow>
      fst (verify_otp x b t) = InvalidOrExpiredCode \<and>
      fst (verify_otp x b t) \<noteq> MaxAttemptsReached \<and>
      fst (snd (verify_otp x b t)) =
        map (\<lambda>r. if r = r0 then r\<lparr>attempts := Some (a + 1)\<rparr> else r) t \<and>
      (\<forall>n. a + n \<le> 9007199254740992 \<longrightarrow>
         repeat_verify n x b t = map (\<lambda>r. if r = r0 then r\<lparr>attempts := Some (a + n)\<rparr> else r) t))"
proof (intro conjI impI)
  assume m: "fst (verify_otp x b t) = MaxAttemptsReached"
  then obtain q where q: "newest (filter (live_match x b) t) = Some q" and e: "attempts_exceeded q"
    by (auto simp: verify_otp_def split: if_splits option.splits)
  have "q \<in> set t \<and> live_match x b q" using newest_filter [OF q] .
  then show "\<exists>r \<in> set t. live_match x b r \<and> MAX_OTP_ATTEMPTS \<le> attempts_or_0 r"
    using e by (auto simp: attempts_exceeded_iff)
next
  assume h: "valid_request b \<and> select_ok x \<and> attempt_select_ok x \<and> attempt_update_ok x \<and>
    distinct (map row_id t) \<and> (\<forall>r \<in> set t. \<not> live_match x b r) \<and>
    r0 \<in> set t \<and> pending_match b r0 \<and>
    (\<forall>q \<in> set t. pending_match b q \<and> q \<noteq> r0 \<longrightarrow> created_at q < created_at r0) \<and>
    attempts r0 = Some a \<and> MAX_OTP_ATTEMPTS \<le> a \<and> a < 9007199254740992"
  then have v: "valid_request b" and s: "select_ok x" and as: "attempt_select_ok x"
    and au: "attempt_update_ok x" and d: "distinct (map row_id t)"
    and l: "\<forall>r \<in> set t. \<not> live_match x b r" and mem: "r0 \<in> set t" and pm: "pending_match b r0"
    and nw: "\<forall>q \<in> set t. pending_match b q \<and> q \<noteq> r0 \<longrightarrow> created_at q < created_at r0"
    and at: "attempts r0 = Some a" and safe: "a < 9007199254740992" by blast+
  have same: "map (set_attempts (row_id r0) a) t = t" by (rule set_attempts_same [OF d mem at])
  have rows: "map (set_attempts (row_id r0) k) t =
              map (\<lambda>r. if r = r0 then r\<lparr>attempts := Some k\<rparr> else r) t" for k
    by (rule set_attempts_by_row [OF d mem])
  have "verify_otp x b (map (set_attempts (row_id r0) a) t) =
     (InvalidOrExpiredCode, map (set_attempts (row_id r0) (a + 1)) t, [DbSelect, DbSelect, DbUpdate])"
    by (rule failed_verify_step [OF v s as au l mem pm nw safe])
  then have "verify_otp x b t =
     (InvalidOrExpiredCode, map (set_attempts (row_id r0) (a + 1)) t, [DbSelect, DbSelect, DbUpdate])"
    by (simp only: same)
  then have eq: "verify_otp x b t =
     (InvalidOrExpiredCode, map (\<lambda>r. if r = r0 then r\<lparr>attempts := Some (a + 1)\<rparr> else r) t,
      [DbSelect, DbSelect, DbUpdate])"
    by (simp only: rows)
  show "fst (verify_otp x b t) = InvalidOrExpiredCode" by (simp add: eq)
  show "fst (verify_otp x b t) \<noteq> MaxAttemptsReached" by (simp add: eq)
  show "fst (snd (verify_otp x b t)) =
        map (\<lambda>r. if r = r0 then r\<lparr>attempts := Some (a + 1)\<rparr> else r) t"
    by (simp add: eq)
  show "\<forall>n. a + n \<le> 9007199254740992 \<longrightarrow>
         repeat_verify n x b t = map (\<lambda>r. if r = r0 then r\<lparr>attempts := Some (a + n)\<rparr> else r) t"
  proof (intro allI impI)
    fix n assume "a + n \<le> 9007199254740992"
    then have "repeat_verify n x b (map (set_attempts (row_id r0) a) t) =
               map (set_attempts (row_id r0) (a + n)) t"
      by (rule repeat_failed_verify [OF v s as au l mem pm nw])
    then have "repeat_verify n x b t = map (set_attempts (row_id r0) (a + n)) t"
      by (simp only: same)
    then show "repeat_verify n x b t = map (\<lambda>r. if r = r0 then r\<lparr>attempts := Some (a + n)\<rparr> else r) t"
      by (simp only: rows)
  qed
qed

theorem max_attempts_needs_matching_code_witness:
  "fst (verify_otp dev_env (body_ab ''123456'') [row_ab\<lparr>attempts := Some 5\<rparr>]) = MaxAttemptsReached \<and>
   live_match dev_env (body_ab ''123456'') (row_ab\<lparr>attempts := Some 5\<rparr>) \<and>
   valid_request (body_ab ''000000'') \<and> select_ok dev_env \<and> attempt_select_ok dev_env \<and>
   attempt_update_ok dev_env \<and> distinct (map row_id [row_ab\<lparr>attempts := Some 5\<rparr>]) \<and>
   \<not> live_match dev_env (body_ab ''000000'') (row_ab\<lparr>attempts := Some 5\<rparr>) \<and>
   pending_match (body_ab ''000000'') (row_ab\<lparr>attempts := Some 5\<rparr>) \<and>
   attempts (row_ab\<lparr>attempts := Some 5\<rparr>) = Some 5 \<and> MAX_OTP_ATTEMPTS \<le> 5 \<and>
   (5::nat) < 9007199254740992 \<and> (5::nat) + 3 \<le> 9007199254740992 \<and>
   fst (verify_otp dev_env (body_ab ''000000'') [row_ab\<lparr>attempts := Some 5\<rparr>]) = InvalidOrExpiredCode \<and>
   fst (snd (verify_otp dev_env (body_ab ''000000'') [row_ab\<lparr>attempts := Some 5\<rparr>])) =
     [row_ab\<lparr>attempts := Some 6\<rparr>] \<and>
   repeat_verify 3 dev_env (body_ab ''000000'') [row_ab\<lparr>attempts := Some 5\<rparr>] =
     [row_ab\<lparr>attempts := Some 8\<rparr>]"
proof -
  let ?r = "row_ab\<lparr>attempts := Some 5\<rparr>"
  let ?t = "[?r]"
  have m: "fst (verify_otp dev_env (body_ab ''123456'') ?t) = MaxAttemptsReached"
    by (simp add: max_attempts_ab)
  have s: "select_ok dev_env" "attempt_select_ok dev_env" "attempt_update_ok dev_env"
    by (simp_all add: dev_env_def)
  have d: "distinct (map row_id ?t)" by simp
  have l': "\<not> live_match dev_env (body_ab ''000000'') ?r" by (simp add: ab_live)
  have l: "\<forall>r \<in> set ?t. \<not> live_match dev_env (body_ab ''000000'') r" using l' by simp
  have mem: "?r \<in> set ?t" by simp
  have p: "pending_match (body_ab ''000000'') ?r" by (rule ab_pending)
  have nw: "\<forall>q \<in> set ?t. pending_match (body_ab ''000000'') q \<and> q \<noteq> ?r \<longrightarrow> created_at q < created_at ?r"
    by simp
  have a: "attempts ?r = Some 5" "MAX_OTP_ATTEMPTS \<le> 5" "(5::nat) < 9007199254740992"
    "(5::nat) + 3 \<le> 9007199254740992"
    by (simp_all add: MAX_OTP_ATTEMPTS_def)
  note th1 = max_attempts_needs_matching_code [of dev_env "body_ab ''123456''" ?t ?r 5]
  note th2 = max_attempts_needs_matching_code [of dev_env "body_ab ''000000''" ?t ?r 5]
  have e: "\<exists>r \<in> set ?t. live_match dev_env (body_ab ''123456'') r \<and> MAX_OTP_ATTEMPTS \<le> attempts_or_0 r"
    using th1 m by blast
  then have e': "live_match dev_env (body_ab ''123456'') ?r" by simp
  have f: "fst (verify_otp dev_env (body_ab ''000000'') ?t) = InvalidOrExpiredCode \<and>
      fst (snd (verify_otp dev_env (body_ab ''000000'') ?t)) =
        map (\<lambda>r. if r = ?r then r\<lparr>attempts := Some (5 + 1)\<rparr> else r) ?t \<and>
      (\<forall>n. 5 + n \<le> 9007199254740992 \<longrightarrow>
         repeat_verify n dev_env (body_ab ''000000'') ?t =
           map (\<lambda>r. if r = ?r then r\<lparr>attempts := Some (5 + n)\<rparr> else r) ?t)"
    using th2 v000000 s d l mem p nw a by blast
  then have g: "fst (snd (verify_otp dev_env (body_ab ''000000'') ?t)) = [row_ab\<lparr>attempts := Some 6\<rparr>]"
    by simp
  have "repeat_verify 3 dev_env (body_ab ''000000'') ?t =
           map (\<lambda>r. if r = ?r then r\<lparr>attempts := Some (5 + 3)\<rparr> else r) ?t"
    using f a(4) by blast
  then have i: "repeat_verify 3 dev_env (body_ab ''000000'') ?t = [row_ab\<lparr>attempts := Some 8\<rparr>]"
    by simp
  show ?thesis using m e' v000000 s d l' p a f g i by blast
qed

end
